theory Spec2Isabelle
  imports Main
begin

section \<open>Strings of the runtime\<close>

text \<open>
  A JavaScript string is a sequence of UTF-16 code units. A code unit is modelled as a
  natural number (below 65536 in every real string); \<open>js\<close> writes an ASCII literal.
\<close>

type_synonym jschar = nat
type_synonym jsstring = "jschar list"

definition js :: "string \<Rightarrow> jsstring" where
  "js s = map of_char s"

text \<open>The character classes the regular expressions of the source use.\<close>

definition isLineTerminator :: "jschar \<Rightarrow> bool" where
  "isLineTerminator c = (c = 10 \<or> c = 13 \<or> c = 8232 \<or> c = 8233)"

text \<open>
  The class \<open>\s\<close>: tab, line feed, vertical tab, form feed, carriage return, space,
  no-break space, U+1680, U+2000 to U+200A, U+2028, U+2029, U+202F, U+205F, U+3000 and
  U+FEFF. \<open>String.prototype.trim\<close> strips the same code units.
\<close>

definition isWhiteSpace :: "jschar \<Rightarrow> bool" where
  "isWhiteSpace c =
     ((9 \<le> c \<and> c \<le> 13) \<or> c = 32 \<or> c = 160 \<or> c = 5760 \<or> (8192 \<le> c \<and> c \<le> 8202)
      \<or> c = 8232 \<or> c = 8233 \<or> c = 8239 \<or> c = 8287 \<or> c = 12288 \<or> c = 65279)"

definition isUpper :: "jschar \<Rightarrow> bool" where
  "isUpper c = (65 \<le> c \<and> c \<le> 90)"

definition isLower :: "jschar \<Rightarrow> bool" where
  "isLower c = (97 \<le> c \<and> c \<le> 122)"

definition isDigit :: "jschar \<Rightarrow> bool" where
  "isDigit c = (48 \<le> c \<and> c \<le> 57)"

text \<open>The class \<open>\w\<close> is \<open>[A-Za-z0-9_]\<close>.\<close>

definition isWordChar :: "jschar \<Rightarrow> bool" where
  "isWordChar c = (isUpper c \<or> isLower c \<or> isDigit c \<or> c = 95)"

text \<open>The class \<open>[a-z0-9-]\<close> of \<open>sluggify\<close>.\<close>

definition isSlugChar :: "jschar \<Rightarrow> bool" where
  "isSlugChar c = (isLower c \<or> isDigit c \<or> c = 45)"

definition isAscii :: "jschar \<Rightarrow> bool" where
  "isAscii c = (c < 128)"

definition asciiLower :: "jschar \<Rightarrow> jschar" where
  "asciiLower c = (if isUpper c then c + 32 else c)"

text \<open>
  \<open>String.prototype.toLowerCase\<close>. On a string of ASCII code units it maps \<open>A-Z\<close> to
  \<open>a-z\<close> and leaves the rest. On any other string the result is read from the Unicode
  case tables of the runtime, which are no part of the repository: that part is the
  parameter \<open>lc\<close>.
\<close>

definition toLowerCase :: "(jsstring \<Rightarrow> jsstring) \<Rightarrow> jsstring \<Rightarrow> jsstring" where
  "toLowerCase lc s = (if list_all isAscii s then map asciiLower s else lc s)"

text \<open>
  \<open>s.replace(/C+/g, r)\<close> for a character class \<open>C\<close>: every maximal run of code units
  of the class is replaced by \<open>r\<close>, the rest is copied.
\<close>

function replaceRuns :: "(jschar \<Rightarrow> bool) \<Rightarrow> jsstring \<Rightarrow> jsstring \<Rightarrow> jsstring" where
  "replaceRuns P r [] = []"
| "replaceRuns P r (c # cs) =
     (if P c then r @ replaceRuns P r (dropWhile P cs) else c # replaceRuns P r cs)"
  by pat_completeness auto
termination
  by (relation "measure (\<lambda>(P, r, s). length s)")
     (auto simp: length_dropWhile_le less_Suc_eq_le)

text \<open>\<open>s.trim()\<close>: white space is dropped at both ends.\<close>

definition trim :: "jsstring \<Rightarrow> jsstring" where
  "trim s = rev (dropWhile isWhiteSpace (rev (dropWhile isWhiteSpace s)))"

text \<open>\<open>s.endsWith(suffix)\<close>.\<close>

definition endsWith :: "jsstring \<Rightarrow> jsstring \<Rightarrow> bool" where
  "endsWith s suffix =
     (length suffix \<le> length s \<and> drop (length s - length suffix) s = suffix)"

section \<open>The two slug functions\<close>

text \<open>
  \<open>sluggify\<close> of \<open>src/lib/markdown.ts\<close>:
  \<^verbatim>\<open>text.toLowerCase().replace(/\s+/g, '-').replace(/[^a-z0-9-]/g, '')\<close>
\<close>

definition sluggify :: "(jsstring \<Rightarrow> jsstring) \<Rightarrow> jsstring \<Rightarrow> jsstring" where
  "sluggify lc text =
     filter isSlugChar (replaceRuns isWhiteSpace (js ''-'') (toLowerCase lc text))"

text \<open>
  \<open>s.replace(/^-+|-+$/g, '')\<close>: the first alternative matches the dashes the string
  starts with, the second the dashes it ends with (a run of dashes in the middle is
  followed by another code unit, so \<open>$\<close> fails there).
\<close>

definition stripDashes :: "jsstring \<Rightarrow> jsstring" where
  "stripDashes s = rev (dropWhile (\<lambda>c. c = 45) (rev (dropWhile (\<lambda>c. c = 45) s)))"

text \<open>
  The id of a heading in \<open>extractHeadings\<close>:
  \<^verbatim>\<open>text.toLowerCase().replace(/[^\w]+/g, '-').replace(/^-+|-+$/g, '')\<close>
\<close>

definition headingId :: "(jsstring \<Rightarrow> jsstring) \<Rightarrow> jsstring \<Rightarrow> jsstring" where
  "headingId lc text =
     stripDashes (replaceRuns (\<lambda>c. \<not> isWordChar c) (js ''-'') (toLowerCase lc text))"

section \<open>Previous and next page (\<open>getPreviousNext\<close>)\<close>

text \<open>
  \<open>page_routes\<close> is imported from \<open>./routes-config\<close>, which is not among the sources:
  the ordered route list is a parameter. A route carries a \<open>title\<close> and an \<open>href\<close>.
\<close>

record route =
  title :: jsstring
  href :: jsstring

record prev_next =
  prev :: "route option"
  next' :: "route option"

text \<open>\<open>Array.prototype.findIndex\<close>: the first index whose element passes, or \<open>-1\<close>.\<close>

fun findIndexFrom :: "('a \<Rightarrow> bool) \<Rightarrow> int \<Rightarrow> 'a list \<Rightarrow> int" where
  "findIndexFrom P k [] = - 1"
| "findIndexFrom P k (x # xs) = (if P x then k else findIndexFrom P (k + 1) xs)"

definition findIndex :: "('a \<Rightarrow> bool) \<Rightarrow> 'a list \<Rightarrow> int" where
  "findIndex P xs = findIndexFrom P 0 xs"

text \<open>\<open>xs[i]\<close> on an array: \<open>undefined\<close> (here \<open>None\<close>) outside \<open>0 .. length - 1\<close>.\<close>

definition arrayGet :: "'a list \<Rightarrow> int \<Rightarrow> 'a option" where
  "arrayGet xs i = (if 0 \<le> i \<and> i < int (length xs) then Some (xs ! nat i) else None)"

definition getPreviousNext :: "route list \<Rightarrow> jsstring \<Rightarrow> prev_next" where
  "getPreviousNext page_routes path =
     (let index = findIndex (\<lambda>r. route.href r = js ''/'' @ path) page_routes
      in \<lparr>prev = arrayGet page_routes (index - 1), next' = arrayGet page_routes (index + 1)\<rparr>)"

section \<open>The runtime and the file system\<close>

text \<open>A thrown value (a rejected promise carries one), with its message.\<close>

datatype error = Error jsstring

text \<open>
  A directory entry as \<open>readdirSync(dir, {withFileTypes: true})\<close> reports it: a regular
  file, a directory with its own entries, a directory that cannot be read (reading it
  throws), or anything else (a symbolic link, a socket), for which both \<open>isFile()\<close> and
  \<open>isDirectory()\<close> are false.
\<close>

datatype dirent =
  FileEnt jsstring
| DirEnt jsstring "dirent list"
| BadDirEnt jsstring error
| OtherEnt jsstring

fun name :: "dirent \<Rightarrow> jsstring" where
  "name (FileEnt n) = n"
| "name (DirEnt n es) = n"
| "name (BadDirEnt n e) = n"
| "name (OtherEnt n) = n"

fun isDirectory :: "dirent \<Rightarrow> bool" where
  "isDirectory (DirEnt n es) = True"
| "isDirectory (BadDirEnt n e) = True"
| "isDirectory _ = False"

fun isFile :: "dirent \<Rightarrow> bool" where
  "isFile (FileEnt n) = True"
| "isFile _ = False"

text \<open>
  The part of the world the program reads and writes: the tree below the content root,
  what reading a path as text gives, what \<open>fs.stat\<close> of a path gives, whether writing a
  path fails, and the console.
\<close>

datatype console_entry = Log jsstring | ErrorLog error

record world =
  docs :: dirent
  fileContents :: "jsstring \<Rightarrow> error + jsstring"
  stats :: "jsstring \<Rightarrow> error + unit"
  writeFailure :: "jsstring \<Rightarrow> error option"
  console :: "console_entry list"

definition readFile :: "world \<Rightarrow> jsstring \<Rightarrow> error + jsstring" where
  "readFile w p = fileContents w p"

definition stat :: "world \<Rightarrow> jsstring \<Rightarrow> error + unit" where
  "stat w p = stats w p"

text \<open>
  \<open>fs.writeFileSync(p, data)\<close>: it throws and leaves the world as it was, or the path
  holds \<open>data\<close> afterwards.
\<close>

definition writeFileSync :: "jsstring \<Rightarrow> jsstring \<Rightarrow> world \<Rightarrow> error + world" where
  "writeFileSync p data w =
     (case writeFailure w p of
        Some e \<Rightarrow> Inl e
      | None \<Rightarrow> Inr (w\<lparr>fileContents := (fileContents w)(p := Inr data), stats := (stats w)(p := Inr ())\<rparr>))"

definition console_log :: "jsstring \<Rightarrow> world \<Rightarrow> world" where
  "console_log msg w = w\<lparr>console := console w @ [Log msg]\<rparr>"

definition console_error :: "error \<Rightarrow> world \<Rightarrow> world" where
  "console_error e w = w\<lparr>console := console w @ [ErrorLog e]\<rparr>"

text \<open>A node of the syntax tree the markdown parser returns: its type, the value of a
  literal node, its children.\<close>

datatype node = Node (ntype: jsstring) (nvalue: "jsstring option") (children: "node list")

record heading =
  text' :: jsstring
  id' :: jsstring

record SearchDocument =
  id' :: jsstring
  title :: jsstring
  folderName :: jsstring
  content :: jsstring
  url :: jsstring
  headings :: "heading list"

text \<open>
  The library functions the sources call and the repository does not define:
  \<open>process.cwd\<close>, \<open>path.join\<close>, \<open>path.relative\<close>, \<open>path.dirname\<close>, the Unicode part of
  \<open>toLowerCase\<close>, \<open>matter\<close> of gray-matter (the body, and the \<open>title\<close> of the front
  matter), the markdown parser and the parse-and-serialise pipeline of unified, and
  \<open>JSON.stringify(index, null, 2)\<close>. A call that can throw returns \<open>Inl\<close>.
\<close>

record runtime =
  process_cwd :: jsstring
  path_join :: "jsstring list \<Rightarrow> jsstring"
  path_relative :: "jsstring \<Rightarrow> jsstring \<Rightarrow> jsstring"
  path_dirname :: "jsstring \<Rightarrow> jsstring"
  caseTable :: "jsstring \<Rightarrow> jsstring"
  matter :: "jsstring \<Rightarrow> error + jsstring \<times> jsstring option"
  remark_parse :: "jsstring \<Rightarrow> error + node"
  remark_process :: "jsstring \<Rightarrow> error + jsstring"
  JSON_stringify :: "SearchDocument list \<Rightarrow> jsstring"

section \<open>Resolving a slug (\<open>getDocsContentPath\<close>)\<close>

definition getDocsContentPath :: "runtime \<Rightarrow> world \<Rightarrow> jsstring \<Rightarrow> error + jsstring" where
  "getDocsContentPath rt w slug =
     (if endsWith slug (js ''.mdx'')
      then Inr (path_join rt [process_cwd rt, js ''/contents/docs/'', slug])
      else
        (let mdxPath = path_join rt [process_cwd rt, js ''/contents/docs/'', slug @ js ''.mdx'']
         in case stat w mdxPath of
              Inr st \<Rightarrow> Inr mdxPath
            | Inl e \<Rightarrow>
                Inr (path_join rt
                  [process_cwd rt, js ''/contents/docs/'', slug @ js ''/index.mdx''])))"

section \<open>The table of contents (\<open>getDocsTocs\<close>)\<close>

record toc_entry =
  level :: nat
  text' :: jsstring
  href :: jsstring

text \<open>
  The pattern \<^verbatim>\<open>/^(#{2,4})\s(.+)$/gm\<close> tried at a position where \<open>^\<close> holds. Group 1
  takes the \<open>#\<close> the input starts with: taking fewer leaves a \<open>#\<close> where \<open>\s\<close> must
  match, so there must be two to four. One code unit of the class \<open>\s\<close> follows. Group 2
  takes every code unit up to the next line terminator (the dot matches no line
  terminator), at least one; there \<open>$\<close> holds. The result is the two groups and the
  input after the match.
\<close>

definition headingsRegex_at :: "jsstring \<Rightarrow> (jsstring \<times> jsstring \<times> jsstring) option" where
  "headingsRegex_at s =
     (let g1 = takeWhile (\<lambda>c. c = 35) s; r1 = dropWhile (\<lambda>c. c = 35) s
      in if 2 \<le> length g1 \<and> length g1 \<le> 4
         then (case r1 of
                 [] \<Rightarrow> None
               | w # r2 \<Rightarrow>
                   if isWhiteSpace w
                   then (let g2 = takeWhile (\<lambda>c. \<not> isLineTerminator c) r2
                         in if g2 = [] then None
                            else Some (g1, g2, dropWhile (\<lambda>c. \<not> isLineTerminator c) r2))
                   else None)
         else None)"

text \<open>
  \<open>headingsRegex.exec(rawMdx)\<close> from the current \<open>lastIndex\<close>: the first position at or
  after it where the pattern matches. \<open>bol\<close> says whether \<open>^\<close> holds at the current
  position: at the start of the input and after a line terminator.
\<close>

fun headingsRegex_exec :: "bool \<Rightarrow> jsstring \<Rightarrow> (jsstring \<times> jsstring \<times> jsstring) option" where
  "headingsRegex_exec bol [] = None"
| "headingsRegex_exec bol (c # cs) =
     (case (if bol then headingsRegex_at (c # cs) else None) of
        Some m \<Rightarrow> Some m
      | None \<Rightarrow> headingsRegex_exec (isLineTerminator c) cs)"

lemma headingsRegex_at_shorter:
  "headingsRegex_at s = Some (g1, g2, rest) \<Longrightarrow> length rest < length s"
proof -
  assume m: "headingsRegex_at s = Some (g1, g2, rest)"
  let ?r1 = "dropWhile (\<lambda>c. c = 35) s"
  from m obtain w r2 where r1: "?r1 = w # r2"
    and rest: "rest = dropWhile (\<lambda>c. \<not> isLineTerminator c) r2"
    by (auto simp: headingsRegex_at_def Let_def split: if_splits list.splits)
  have "length rest \<le> length r2"
    using rest by (simp add: length_dropWhile_le)
  moreover have "length r2 < length ?r1"
    using r1 by simp
  moreover have "length ?r1 \<le> length s"
    by (rule length_dropWhile_le)
  ultimately show ?thesis by linarith
qed

lemma headingsRegex_exec_shorter:
  "headingsRegex_exec bol s = Some (g1, g2, rest) \<Longrightarrow> length rest < length s"
proof (induction s arbitrary: bol)
  case Nil
  then show ?case by simp
next
  case (Cons c cs)
  show ?case
  proof (cases "if bol then headingsRegex_at (c # cs) else None")
    case None
    then have "headingsRegex_exec (isLineTerminator c) cs = Some (g1, g2, rest)"
      using Cons.prems by simp
    then have "length rest < length cs" by (rule Cons.IH)
    then show ?thesis by simp
  next
    case (Some m)
    then have "headingsRegex_at (c # cs) = Some (g1, g2, rest)"
      using Cons.prems by (simp split: if_splits)
    then show ?thesis by (rule headingsRegex_at_shorter)
  qed
qed

text \<open>
  The loop of \<open>getDocsTocs\<close> over the text read:
  \<^verbatim>\<open>while ((match = headingsRegex.exec(rawMdx)) !== null) { ... push ... }\<close>
  After a match the search goes on behind it, where \<open>^\<close> does not hold (the code unit
  before is the last of group 2, no line terminator).
\<close>

function extractToc :: "(jsstring \<Rightarrow> jsstring) \<Rightarrow> bool \<Rightarrow> jsstring \<Rightarrow> toc_entry list" where
  "extractToc lc bol rawMdx =
     (case headingsRegex_exec bol rawMdx of
        None \<Rightarrow> []
      | Some (g1, g2, rest) \<Rightarrow>
          (let headingLevel = length g1;
               headingText = trim g2;
               slug = sluggify lc headingText
           in \<lparr>level = headingLevel, text' = headingText, href = js ''#'' @ slug\<rparr>
                # extractToc lc False rest))"
  by pat_completeness auto
termination
  by (relation "measure (\<lambda>(lc, bol, s). length s)")
     (auto dest: headingsRegex_exec_shorter)

definition getDocsTocs :: "runtime \<Rightarrow> world \<Rightarrow> jsstring \<Rightarrow> error + toc_entry list" where
  "getDocsTocs rt w slug =
     (case getDocsContentPath rt w slug of
        Inl e \<Rightarrow> Inl e
      | Inr contentPath \<Rightarrow>
          (case readFile w contentPath of
             Inl e \<Rightarrow> Inl e
           | Inr rawMdx \<Rightarrow> Inr (extractToc (caseTable rt) True rawMdx)))"

text \<open>The entry the loop pushes for a match with the groups \<open>g1\<close> and \<open>g2\<close>.\<close>

definition mkEntry :: "(jsstring \<Rightarrow> jsstring) \<Rightarrow> jsstring \<Rightarrow> jsstring \<Rightarrow> toc_entry" where
  "mkEntry lc g1 g2 =
     \<lparr>level = length g1, text' = trim g2, href = js ''#'' @ sluggify lc (trim g2)\<rparr>"

section \<open>The search index (\<open>generateSearchIndex\<close>)\<close>

definition DOCS_ROOT :: "runtime \<Rightarrow> jsstring" where
  "DOCS_ROOT rt = path_join rt [process_cwd rt, js ''contents/docs'']"

definition OUTPUT_FILE :: "runtime \<Rightarrow> jsstring" where
  "OUTPUT_FILE rt = path_join rt [process_cwd rt, js ''public'', js ''search-index.json'']"

text \<open>
  \<open>getAllIndexMDXFiles(dir)\<close>, where the third argument is what is at \<open>dir\<close>.
  \<open>readdirSync\<close> gives the entries of a directory, throws the error of a directory that
  cannot be read, and throws \<open>ENOTDIR\<close> on anything else. \<open>forEachEntry\<close> is the \<open>forEach\<close>
  over the entries read, with the array \<open>files\<close> built so far. A throw at any depth
  leaves the whole call.
\<close>

fun getAllIndexMDXFiles :: "(jsstring list \<Rightarrow> jsstring) \<Rightarrow> jsstring \<Rightarrow> dirent \<Rightarrow> error + jsstring list"
  and forEachEntry ::
    "(jsstring list \<Rightarrow> jsstring) \<Rightarrow> jsstring \<Rightarrow> dirent list \<Rightarrow> jsstring list \<Rightarrow> error + jsstring list"
where
  "getAllIndexMDXFiles join dir (DirEnt n es) = forEachEntry join dir es []"
| "getAllIndexMDXFiles join dir (BadDirEnt n e) = Inl e"
| "getAllIndexMDXFiles join dir (FileEnt n) = Inl (Error (js ''ENOTDIR''))"
| "getAllIndexMDXFiles join dir (OtherEnt n) = Inl (Error (js ''ENOTDIR''))"
| "forEachEntry join dir [] files = Inr files"
| "forEachEntry join dir (entry # rest) files =
     (let fullPath = join [dir, name entry]
      in if isDirectory entry
         then (case getAllIndexMDXFiles join fullPath entry of
                 Inl e \<Rightarrow> Inl e
               | Inr sub \<Rightarrow> forEachEntry join dir rest (files @ sub))
         else if isFile entry \<and> name entry = js ''index.mdx''
         then forEachEntry join dir rest (files @ [fullPath])
         else forEachEntry join dir rest files)"

text \<open>
  \<open>extractHeadings\<close>. \<open>visit(tree, 'heading', visitor)\<close> walks the tree in preorder and
  calls the visitor on every node of type \<open>heading\<close>; the visitor returns nothing, so the
  walk goes on into the children. \<open>join('')\<close> writes a missing value as the empty string.
\<close>

definition visitor :: "(jsstring \<Rightarrow> jsstring) \<Rightarrow> node \<Rightarrow> heading list \<Rightarrow> heading list" where
  "visitor lc node hs =
     (let text = concat (map (\<lambda>child. case nvalue child of None \<Rightarrow> [] | Some v \<Rightarrow> v)
                   (filter (\<lambda>child. ntype child = js ''text'') (children node)));
          id0 = headingId lc text
      in if text \<noteq> [] \<and> id0 \<noteq> [] then hs @ [\<lparr>heading.text' = text, heading.id' = id0\<rparr>] else hs)"

fun visit :: "(jsstring \<Rightarrow> jsstring) \<Rightarrow> node \<Rightarrow> heading list \<Rightarrow> heading list"
  and visitChildren :: "(jsstring \<Rightarrow> jsstring) \<Rightarrow> node list \<Rightarrow> heading list \<Rightarrow> heading list"
where
  "visit lc (Node t v cs) hs =
     visitChildren lc cs (if t = js ''heading'' then visitor lc (Node t v cs) hs else hs)"
| "visitChildren lc [] hs = hs"
| "visitChildren lc (c # cs) hs = visitChildren lc cs (visit lc c hs)"

definition extractHeadings :: "runtime \<Rightarrow> jsstring \<Rightarrow> error + heading list" where
  "extractHeadings rt content0 =
     (case remark_parse rt content0 of
        Inl e \<Rightarrow> Inl e
      | Inr tree \<Rightarrow> Inr (visit (caseTable rt) tree []))"

text \<open>\<open>s.split('/').pop()\<close>: what follows the last \<open>/\<close>.\<close>

definition lastSegment :: "jsstring \<Rightarrow> jsstring" where
  "lastSegment s = rev (takeWhile (\<lambda>c. c \<noteq> 47) (rev s))"

text \<open>
  \<open>extractTextFromMDX(filePath)\<close>. Each step that throws rejects the promise the
  function returns; \<open>a || b\<close> is \<open>b\<close> when \<open>a\<close> is missing or the empty string. A
  local name that a field of the result also bears ends in \<open>0\<close> here.
\<close>

definition extractTextFromMDX :: "runtime \<Rightarrow> world \<Rightarrow> jsstring \<Rightarrow> error + SearchDocument" where
  "extractTextFromMDX rt w filePath =
     (case readFile w filePath of
        Inl e \<Rightarrow> Inl e
      | Inr fileContent \<Rightarrow>
     (case matter rt fileContent of
        Inl e \<Rightarrow> Inl e
      | Inr (content0, data_title) \<Rightarrow>
     (case remark_process rt content0 of
        Inl e \<Rightarrow> Inl e
      | Inr plainText \<Rightarrow>
     (case extractHeadings rt content0 of
        Inl e \<Rightarrow> Inl e
      | Inr headings0 \<Rightarrow>
         (let relativePath = path_relative rt (DOCS_ROOT rt) (path_dirname rt filePath);
              url0 = js ''/docs/'' @ relativePath;
              folderName0 =
                (if lastSegment relativePath \<noteq> [] then lastSegment relativePath
                 else relativePath)
          in Inr \<lparr>SearchDocument.id' = relativePath,
                  SearchDocument.title =
                    (case data_title of
                       None \<Rightarrow> relativePath
                     | Some t \<Rightarrow> if t \<noteq> [] then t else relativePath),
                  folderName = folderName0,
                  content = trim (replaceRuns (\<lambda>c. c = 10) (js '' '') plainText),
                  url = url0,
                  headings = headings0\<rparr>)))))"

text \<open>
  \<open>Promise.all\<close> over promises that have settled: fulfilled with every value in the
  order of the list, or rejected with the reason of a rejected one. The runtime takes
  the reason of the promise that rejected first in time; the model takes the first in
  the order of the list.
\<close>

fun Promise_all :: "(error + 'a) list \<Rightarrow> error + 'a list" where
  "Promise_all [] = Inr []"
| "Promise_all (Inl e # ps) = Inl e"
| "Promise_all (Inr x # ps) =
     (case Promise_all ps of Inl e \<Rightarrow> Inl e | Inr xs \<Rightarrow> Inr (x # xs))"

text \<open>
  \<open>generateSearchIndex\<close>: how the promise it returns settles, and the world it leaves.
  The message starts with the check mark U+2705.
\<close>

definition generateSearchIndex :: "runtime \<Rightarrow> world \<Rightarrow> (error + unit) \<times> world" where
  "generateSearchIndex rt w =
     (case getAllIndexMDXFiles (path_join rt) (DOCS_ROOT rt) (docs w) of
        Inl e \<Rightarrow> (Inl e, w)
      | Inr files \<Rightarrow>
     (case Promise_all (map (\<lambda>file. extractTextFromMDX rt w file) files) of
        Inl e \<Rightarrow> (Inl e, w)
      | Inr index \<Rightarrow>
     (case writeFileSync (OUTPUT_FILE rt) (JSON_stringify rt index) w of
        Inl e \<Rightarrow> (Inl e, w)
      | Inr w' \<Rightarrow>
          (Inr (),
           console_log ([9989, 32] @ js ''Search index generated: '' @ OUTPUT_FILE rt) w'))))"

text \<open>
  The script: \<open>generateSearchIndex().catch(console.error)\<close>. The handler of \<open>catch\<close>
  runs on a rejection, and the promise \<open>catch\<close> returns is then fulfilled.
\<close>

definition catch ::
  "(error + unit) \<times> world \<Rightarrow> (error \<Rightarrow> world \<Rightarrow> world) \<Rightarrow> (error + unit) \<times> world" where
  "catch p onRejected =
     (case p of
        (Inl e, w) \<Rightarrow> (Inr (), onRejected e w)
      | (Inr v, w) \<Rightarrow> (Inr v, w))"

definition script :: "runtime \<Rightarrow> world \<Rightarrow> (error + unit) \<times> world" where
  "script rt w = catch (generateSearchIndex rt w) console_error"

text \<open>
  The status the process ends with. The sources never assign \<open>process.exitCode\<close> and
  never call \<open>process.exit\<close>, so the runtime decides: \<open>1\<close> when the promise of the script
  is left rejected with no handler, \<open>0\<close> otherwise.
\<close>

definition exitStatus :: "(error + unit) \<times> world \<Rightarrow> nat" where
  "exitStatus p = (case fst p of Inl e \<Rightarrow> 1 | Inr v \<Rightarrow> 0)"

section \<open>What the specification says, in its own words\<close>

text \<open>
  The properties below compare the functions above with these definitions, which follow
  the wording of the specification and not the code.
\<close>

text \<open>A heading text of ASCII letters, digits and spaces only.\<close>

definition isPlainChar :: "jschar \<Rightarrow> bool" where
  "isPlainChar c = (isUpper c \<or> isLower c \<or> isDigit c \<or> c = 32)"

text \<open>A heading text of ASCII letters, digits and ASCII white space only.\<close>

definition isPlainOrSpaceChar :: "jschar \<Rightarrow> bool" where
  "isPlainOrSpaceChar c =
     (isUpper c \<or> isLower c \<or> isDigit c \<or> (isWhiteSpace c \<and> isAscii c))"

text \<open>
  Every maximal run of spaces replaced by one dash, nothing else changed: a space
  before a space is dropped, the last space of a run becomes the dash.
\<close>

fun spaceRunsToDash :: "jsstring \<Rightarrow> jsstring" where
  "spaceRunsToDash [] = []"
| "spaceRunsToDash [c] = (if c = 32 then [45] else [c])"
| "spaceRunsToDash (c # d # cs) =
     (if c = 32
      then (if d = 32 then spaceRunsToDash (d # cs) else 45 # spaceRunsToDash (d # cs))
      else c # spaceRunsToDash (d # cs))"

text \<open>The pieces of a string between the code units of a class: its lines, for the line
  terminators; its segments, for the slash.\<close>

fun splitWhere :: "(jschar \<Rightarrow> bool) \<Rightarrow> jsstring \<Rightarrow> jsstring list" where
  "splitWhere P [] = [[]]"
| "splitWhere P (c # cs) =
     (if P c then [] # splitWhere P cs
      else (case splitWhere P cs of [] \<Rightarrow> [[c]] | l # ls \<Rightarrow> (c # l) # ls))"

definition splitLines :: "jsstring \<Rightarrow> jsstring list" where
  "splitLines s = splitWhere isLineTerminator s"

text \<open>
  The entry of one line, read by itself: two to four \<open>#\<close>, one white space, then the
  remaining line content, which is not empty. The level is the number of \<open>#\<close>, the text
  the remaining content trimmed, the link \<open>#\<close> and the slug of the text.
\<close>

definition lineEntry :: "(jsstring \<Rightarrow> jsstring) \<Rightarrow> jsstring \<Rightarrow> toc_entry option" where
  "lineEntry lc line =
     (let marks = takeWhile (\<lambda>c. c = 35) line; r1 = dropWhile (\<lambda>c. c = 35) line
      in if 2 \<le> length marks \<and> length marks \<le> 4
         then (case r1 of
                 [] \<Rightarrow> None
               | w # remaining \<Rightarrow>
                   if isWhiteSpace w \<and> remaining \<noteq> []
                   then Some \<lparr>level = length marks, text' = trim remaining,
                              href = js ''#'' @ sluggify lc (trim remaining)\<rparr>
                   else None)
         else None)"

definition tocOfLines :: "(jsstring \<Rightarrow> jsstring) \<Rightarrow> jsstring \<Rightarrow> toc_entry list" where
  "tocOfLines lc rawMdx = List.map_filter (lineEntry lc) (splitLines rawMdx)"

text \<open>A line of two to four \<open>#\<close> and nothing else.\<close>

definition isBareMarker :: "jsstring \<Rightarrow> bool" where
  "isBareMarker line = (list_all (\<lambda>c. c = 35) line \<and> 2 \<le> length line \<and> length line \<le> 4)"

text \<open>No such line is directly followed by a line that is not empty.\<close>

fun noBareMarker :: "jsstring list \<Rightarrow> bool" where
  "noBareMarker (l # l' # ls) = (\<not> (isBareMarker l \<and> l' \<noteq> []) \<and> noBareMarker (l' # ls))"
| "noBareMarker ls = True"

text \<open>
  Every regular file at any depth below a directory, as its path and its name; and
  whether every directory of a tree can be read.
\<close>

fun filesOfEntry :: "(jsstring list \<Rightarrow> jsstring) \<Rightarrow> jsstring \<Rightarrow> dirent \<Rightarrow> (jsstring \<times> jsstring) list"
  and filesBelow ::
    "(jsstring list \<Rightarrow> jsstring) \<Rightarrow> jsstring \<Rightarrow> dirent list \<Rightarrow> (jsstring \<times> jsstring) list"
where
  "filesOfEntry join dir (FileEnt n) = [(join [dir, n], n)]"
| "filesOfEntry join dir (DirEnt n es) = filesBelow join (join [dir, n]) es"
| "filesOfEntry join dir (BadDirEnt n e) = []"
| "filesOfEntry join dir (OtherEnt n) = []"
| "filesBelow join dir [] = []"
| "filesBelow join dir (e # es) = filesOfEntry join dir e @ filesBelow join dir es"

fun readable :: "dirent \<Rightarrow> bool" and readableAll :: "dirent list \<Rightarrow> bool" where
  "readable (FileEnt n) = True"
| "readable (DirEnt n es) = readableAll es"
| "readable (BadDirEnt n e) = False"
| "readable (OtherEnt n) = True"
| "readableAll [] = True"
| "readableAll (e # es) = (readable e \<and> readableAll es)"

text \<open>The paths of the files whose name is exactly \<open>index.mdx\<close>, in the order given.\<close>

definition indexPaths :: "(jsstring \<times> jsstring) list \<Rightarrow> jsstring list" where
  "indexPaths fs = map fst (filter (\<lambda>pn. snd pn = js ''index.mdx'') fs)"

text \<open>
  The heading nodes of a tree in document order, the text of the direct plain-text
  children of a node, and whether it has such a child.
\<close>

fun headingNodes :: "node \<Rightarrow> node list" and headingNodesOf :: "node list \<Rightarrow> node list" where
  "headingNodes (Node t v cs) =
     (if t = js ''heading'' then [Node t v cs] else []) @ headingNodesOf cs"
| "headingNodesOf [] = []"
| "headingNodesOf (c # cs) = headingNodes c @ headingNodesOf cs"

fun directText :: "node list \<Rightarrow> jsstring" where
  "directText [] = []"
| "directText (c # cs) =
     (if ntype c = js ''text'' then (case nvalue c of None \<Rightarrow> [] | Some v \<Rightarrow> v) else [])
       @ directText cs"

definition hasPlainText :: "node \<Rightarrow> bool" where
  "hasPlainText n = list_ex (\<lambda>c. ntype c = js ''text'') (children n)"

definition emitsEntry :: "(jsstring \<Rightarrow> jsstring) \<Rightarrow> node \<Rightarrow> bool" where
  "emitsEntry lc n = (hasPlainText n \<and> headingId lc (directText (children n)) \<noteq> [])"

definition entryOf :: "(jsstring \<Rightarrow> jsstring) \<Rightarrow> node \<Rightarrow> heading" where
  "entryOf lc n =
     \<lparr>heading.text' = directText (children n),
      heading.id' = headingId lc (directText (children n))\<rparr>"

section \<open>A runtime and a content tree for the examples\<close>

text \<open>Case tables that leave every string beyond ASCII as it is.\<close>

definition asciiOnly :: "jsstring \<Rightarrow> jsstring" where
  "asciiOnly s = s"

text \<open>
  \<open>path.join\<close> as POSIX has it: the parts that are not empty, joined by \<open>/\<close> and
  normalised (empty and \<open>.\<close> segments dropped, \<open>..\<close> resolved, a trailing \<open>/\<close> kept).
\<close>

fun joinWith :: "jsstring \<Rightarrow> jsstring list \<Rightarrow> jsstring" where
  "joinWith sep [] = []"
| "joinWith sep [x] = x"
| "joinWith sep (x # y # ys) = x @ sep @ joinWith sep (y # ys)"

fun normalizeSegments :: "bool \<Rightarrow> jsstring list \<Rightarrow> jsstring list \<Rightarrow> jsstring list" where
  "normalizeSegments allowAboveRoot res [] = res"
| "normalizeSegments allowAboveRoot res (seg # segs) =
     (if seg = [] \<or> seg = js ''.'' then normalizeSegments allowAboveRoot res segs
      else if seg = js ''..''
      then (if res \<noteq> [] \<and> last res \<noteq> js ''..''
            then normalizeSegments allowAboveRoot (butlast res) segs
            else if allowAboveRoot
            then normalizeSegments allowAboveRoot (res @ [js ''..'']) segs
            else normalizeSegments allowAboveRoot res segs)
      else normalizeSegments allowAboveRoot (res @ [seg]) segs)"

definition posixNormalize :: "jsstring \<Rightarrow> jsstring" where
  "posixNormalize p =
     (if p = [] then js ''.''
      else
        (let isAbsolute = (hd p = 47);
             trailingSeparator = (last p = 47);
             q = joinWith (js ''/'')
                   (normalizeSegments (\<not> isAbsolute) [] (splitWhere (\<lambda>c. c = 47) p))
         in if q = []
            then (if isAbsolute then js ''/'' else if trailingSeparator then js ''./'' else js ''.'')
            else (if isAbsolute then js ''/'' else []) @ q
                   @ (if trailingSeparator then js ''/'' else [])))"

definition posixJoin :: "jsstring list \<Rightarrow> jsstring" where
  "posixJoin parts =
     (let joined = joinWith (js ''/'') (filter (\<lambda>part. part \<noteq> []) parts)
      in if joined = [] then js ''.'' else posixNormalize joined)"

text \<open>
  \<open>path.dirname\<close> and \<open>path.relative\<close> on the normalised absolute paths the walk
  produces: the path without its last segment, and the path below \<open>from\<close>.
\<close>

definition posixDirname :: "jsstring \<Rightarrow> jsstring" where
  "posixDirname p =
     (let d = rev (tl (dropWhile (\<lambda>c. c \<noteq> 47) (rev p)))
      in if d = [] then (if p \<noteq> [] \<and> hd p = 47 then js ''/'' else js ''.'') else d)"

definition relativeBelow :: "jsstring \<Rightarrow> jsstring \<Rightarrow> jsstring" where
  "relativeBelow from to =
     (if take (length from + 1) to = from @ js ''/'' then drop (length from + 1) to else [])"

text \<open>
  Stand-ins for the parsers, enough for the documents of the example: no document has
  front matter, a document is one line, a heading when it starts with \<open>#\<close> and a space
  and a paragraph otherwise, and serialising gives the line back.
\<close>

definition noFrontMatter :: "jsstring \<Rightarrow> error + jsstring \<times> jsstring option" where
  "noFrontMatter s = Inr (s, None)"

definition parseOneLine :: "jsstring \<Rightarrow> error + node" where
  "parseOneLine s =
     (if take 2 s = js ''# ''
      then Inr (Node (js ''root'') None
                 [Node (js ''heading'') None [Node (js ''text'') (Some (drop 2 s)) []]])
      else Inr (Node (js ''root'') None
                 [Node (js ''paragraph'') None [Node (js ''text'') (Some s) []]]))"

definition processOneLine :: "jsstring \<Rightarrow> error + jsstring" where
  "processOneLine s = Inr s"

definition listIds :: "SearchDocument list \<Rightarrow> jsstring" where
  "listIds ds = joinWith (js '','') (map SearchDocument.id' ds)"

definition exampleRuntime :: runtime where
  "exampleRuntime =
     \<lparr>process_cwd = js ''/site'', path_join = posixJoin, path_relative = relativeBelow,
      path_dirname = posixDirname, caseTable = asciiOnly, matter = noFrontMatter,
      remark_parse = parseOneLine, remark_process = processOneLine,
      JSON_stringify = listIds\<rparr>"

text \<open>
  The tree of the specification's example: \<open>a/index.mdx\<close>, \<open>a/b/index.mdx\<close> and
  \<open>a/notes.mdx\<close> below the content root.
\<close>

definition exampleDocs :: dirent where
  "exampleDocs =
     DirEnt (js ''docs'')
       [DirEnt (js ''a'')
          [FileEnt (js ''index.mdx''),
           DirEnt (js ''b'') [FileEnt (js ''index.mdx'')],
           FileEnt (js ''notes.mdx'')]]"

text \<open>
  Two worlds over that tree. In both an earlier artifact holds \<open>old\<close>. In the first
  every document can be read; in the second reading \<open>a/b/index.mdx\<close> fails.
\<close>

definition goodContents :: "jsstring \<Rightarrow> error + jsstring" where
  "goodContents p =
     (if p = js ''/site/contents/docs/a/index.mdx'' then Inr (js ''# Foo'')
      else if p = js ''/site/contents/docs/a/b/index.mdx'' then Inr (js ''# Bar'')
      else if p = js ''/site/contents/docs/a/notes.mdx'' then Inr (js ''notes'')
      else if p = js ''/site/public/search-index.json'' then Inr (js ''old'')
      else Inl (Error (js ''ENOENT'')))"

definition badContents :: "jsstring \<Rightarrow> error + jsstring" where
  "badContents p =
     (if p = js ''/site/contents/docs/a/b/index.mdx'' then Inl (Error (js ''EACCES''))
      else goodContents p)"

definition statOf :: "(jsstring \<Rightarrow> error + jsstring) \<Rightarrow> jsstring \<Rightarrow> error + unit" where
  "statOf contents p = (case contents p of Inl e \<Rightarrow> Inl e | Inr c \<Rightarrow> Inr ())"

definition neverFails :: "jsstring \<Rightarrow> error option" where
  "neverFails p = None"

definition goodWorld :: world where
  "goodWorld =
     \<lparr>docs = exampleDocs, fileContents = goodContents, stats = statOf goodContents,
      writeFailure = neverFails, console = []\<rparr>"

definition badWorld :: world where
  "badWorld =
     \<lparr>docs = exampleDocs, fileContents = badContents, stats = statOf badContents,
      writeFailure = neverFails, console = []\<rparr>"

text \<open>A third world: the documents of the first, and every write fails.\<close>

definition alwaysFails :: "jsstring \<Rightarrow> error option" where
  "alwaysFails p = Some (Error (js ''EROFS''))"

definition readOnlyWorld :: world where
  "readOnlyWorld = goodWorld\<lparr>writeFailure := alwaysFails\<rparr>"

text \<open>The records of the two documents in the first world.\<close>

definition docA :: SearchDocument where
  "docA =
     \<lparr>SearchDocument.id' = js ''a'', SearchDocument.title = js ''a'', folderName = js ''a'',
      content = js ''# Foo'', url = js ''/docs/a'',
      headings = [\<lparr>heading.text' = js ''Foo'', heading.id' = js ''foo''\<rparr>]\<rparr>"

definition docB :: SearchDocument where
  "docB =
     \<lparr>SearchDocument.id' = js ''a/b'', SearchDocument.title = js ''a/b'', folderName = js ''b'',
      content = js ''# Bar'', url = js ''/docs/a/b'',
      headings = [\<lparr>heading.text' = js ''Bar'', heading.id' = js ''bar''\<rparr>]\<rparr>"

text \<open>
  A syntax tree with four blocks: a heading of plain text, a heading that is all
  emphasis, a heading of punctuation only, and a paragraph.
\<close>

definition exampleTree :: node where
  "exampleTree =
     Node (js ''root'') None
       [Node (js ''heading'') None [Node (js ''text'') (Some (js ''Foo'')) []],
        Node (js ''heading'') None
          [Node (js ''emphasis'') None [Node (js ''text'') (Some (js ''Bar'')) []]],
        Node (js ''heading'') None [Node (js ''text'') (Some (js ''!!!'')) []],
        Node (js ''paragraph'') None [Node (js ''text'') (Some (js ''Some text'')) []]]"

text \<open>A route list of three pages.\<close>

definition exampleRoutes :: "route list" where
  "exampleRoutes =
     [\<lparr>route.title = js ''Intro'', route.href = js ''/docs/intro''\<rparr>,
      \<lparr>route.title = js ''Install'', route.href = js ''/docs/install''\<rparr>,
      \<lparr>route.title = js ''Usage'', route.href = js ''/docs/usage''\<rparr>]"

section \<open>Evaluation and helper lemmas\<close>

lemmas char_defs = js_def isLineTerminator_def isWhiteSpace_def isUpper_def isLower_def
  isDigit_def isWordChar_def isSlugChar_def isAscii_def asciiLower_def

lemmas example_defs = exampleRuntime_def posixJoin_def posixNormalize_def js_def
  goodWorld_def badWorld_def goodContents_def badContents_def statOf_def stat_def readFile_def
  exampleDocs_def DOCS_ROOT_def OUTPUT_FILE_def readOnlyWorld_def

lemmas extract_defs = extractTextFromMDX_def extractHeadings_def noFrontMatter_def
  parseOneLine_def processOneLine_def posixDirname_def relativeBelow_def lastSegment_def
  visitor_def headingId_def toLowerCase_def stripDashes_def trim_def Let_def char_defs

subsection \<open>Character classes\<close>

lemma ws_plain: "isLower c \<or> isDigit c \<or> c = 32 \<Longrightarrow> isWhiteSpace c = (c = 32)"
  unfolding isWhiteSpace_def isLower_def isDigit_def by arith

lemma nw_kinds:
  "isLower c \<or> isDigit c \<or> isWhiteSpace c \<Longrightarrow> (\<not> isWordChar c) = isWhiteSpace c"
  unfolding isWordChar_def isWhiteSpace_def isUpper_def isLower_def isDigit_def by arith

lemma ws_lower: "isWhiteSpace (asciiLower c) = isWhiteSpace c"
  unfolding asciiLower_def isWhiteSpace_def isUpper_def
  by (cases "65 \<le> c \<and> c \<le> 90") auto

lemma dash_kinds:
  "isLower c \<or> isDigit c \<or> isWhiteSpace c \<Longrightarrow> \<not> isWhiteSpace c \<Longrightarrow> c \<noteq> 45"
  unfolding isLower_def isDigit_def by arith

lemma lower_kinds:
  "isUpper c \<or> isLower c \<or> isDigit c \<or> c = 32 \<Longrightarrow>
     isLower (asciiLower c) \<or> isDigit (asciiLower c) \<or> asciiLower c = 32"
  unfolding asciiLower_def isUpper_def isLower_def isDigit_def by auto

lemma lower_kinds_ws:
  "isUpper c \<or> isLower c \<or> isDigit c \<or> (isWhiteSpace c \<and> isAscii c) \<Longrightarrow>
     isLower (asciiLower c) \<or> isDigit (asciiLower c) \<or> isWhiteSpace (asciiLower c)"
  using ws_lower[of c] unfolding asciiLower_def isUpper_def isLower_def isDigit_def by auto

lemma plain_ascii: "isPlainChar c \<Longrightarrow> isAscii c"
  unfolding isPlainChar_def isAscii_def isUpper_def isLower_def isDigit_def by arith

lemma plain_space_ascii: "isPlainOrSpaceChar c \<Longrightarrow> isAscii c"
  unfolding isPlainOrSpaceChar_def isAscii_def isUpper_def isLower_def isDigit_def by arith

lemma toLowerCase_ascii: "list_all isAscii s \<Longrightarrow> toLowerCase lc s = map asciiLower s"
  by (simp add: toLowerCase_def)

subsection \<open>Replacing runs\<close>

lemma replaceRuns_cong:
  "(\<And>c. c \<in> set s \<Longrightarrow> P c = Q c) \<Longrightarrow> replaceRuns P r s = replaceRuns Q r s"
proof (induction P r s rule: replaceRuns.induct)
  case (1 P r)
  then show ?case by simp
next
  case (2 P r c cs)
  have eq: "dropWhile P cs = dropWhile Q cs"
    using 2(3) by (intro dropWhile_cong) auto
  have sub: "set (dropWhile P cs) \<subseteq> set cs"
    by (auto dest: set_dropWhileD)
  show ?case
  proof (cases "P c")
    case True
    then have "Q c" using 2(3) by auto
    moreover have "replaceRuns P r (dropWhile P cs) = replaceRuns Q r (dropWhile P cs)"
      using 2(1)[OF True] 2(3) sub by auto
    ultimately show ?thesis using True eq by simp
  next
    case False
    then have "\<not> Q c" using 2(3) by auto
    moreover have "replaceRuns P r cs = replaceRuns Q r cs"
      using 2(2)[OF False] 2(3) by auto
    ultimately show ?thesis using False by simp
  qed
qed

lemma set_replaceRuns: "set (replaceRuns P r s) \<subseteq> set r \<union> {c \<in> set s. \<not> P c}"
proof (induction P r s rule: replaceRuns.induct)
  case (1 P r)
  then show ?case by simp
next
  case (2 P r c cs)
  have sub: "set (dropWhile P cs) \<subseteq> set cs"
    by (auto dest: set_dropWhileD)
  show ?case using 2 sub by (cases "P c") auto
qed

lemma replaceRuns_space: "replaceRuns (\<lambda>c. c = 32) [45] s = spaceRunsToDash s"
  by (induction s rule: spaceRunsToDash.induct) auto

lemma hd_replaceRuns: "s \<noteq> [] \<Longrightarrow> \<not> P (hd s) \<Longrightarrow> hd (replaceRuns P r s) = hd s"
  by (cases s) auto

lemma replaceRuns_Nil_iff: "r \<noteq> [] \<Longrightarrow> replaceRuns P r s = [] \<longleftrightarrow> s = []"
  by (cases s) auto

lemma last_replaceRuns:
  "s \<noteq> [] \<Longrightarrow> \<not> P (last s) \<Longrightarrow> r \<noteq> [] \<Longrightarrow> last (replaceRuns P r s) = last s"
proof (induction P r s rule: replaceRuns.induct)
  case (1 P r)
  then show ?case by simp
next
  case (2 P r c cs)
  show ?case
  proof (cases "P c")
    case True
    have ne: "dropWhile P cs \<noteq> []"
      using 2(3,4) True by (cases cs rule: rev_cases) (auto simp: dropWhile_append)
    have "last (dropWhile P cs) = last cs"
      using ne by (metis takeWhile_dropWhile_id last_appendR)
    moreover have "last cs = last (c # cs)" using ne by auto
    ultimately have "last (replaceRuns P r (dropWhile P cs)) = last (c # cs)"
      using 2(1)[OF True ne] 2(4,5) by simp
    then show ?thesis using True ne 2(5) by (simp add: replaceRuns_Nil_iff)
  next
    case False
    show ?thesis
    proof (cases "cs = []")
      case True
      then show ?thesis using False by simp
    next
      case ne: False
      then show ?thesis
        using False 2(2)[OF False ne] 2(4,5) by (simp add: replaceRuns_Nil_iff)
    qed
  qed
qed

lemma dropWhile_hd: "s \<noteq> [] \<Longrightarrow> \<not> P (hd s) \<Longrightarrow> dropWhile P s = s"
  by (cases s) auto

lemma stripDashes_id:
  "s \<noteq> [] \<Longrightarrow> hd s \<noteq> 45 \<Longrightarrow> last s \<noteq> 45 \<Longrightarrow> stripDashes s = s"
  unfolding stripDashes_def by (simp add: dropWhile_hd hd_rev)

lemma slug_of_kinds:
  assumes "\<And>c. c \<in> set l \<Longrightarrow> isLower c \<or> isDigit c \<or> isWhiteSpace c"
  shows "filter isSlugChar (replaceRuns isWhiteSpace (js ''-'') l)
    = replaceRuns isWhiteSpace (js ''-'') l"
proof -
  have "isSlugChar c" if "c \<in> set (replaceRuns isWhiteSpace (js ''-'') l)" for c
  proof -
    have "c \<in> set (js ''-'') \<or> (c \<in> set l \<and> \<not> isWhiteSpace c)"
      using that set_replaceRuns[of isWhiteSpace "js ''-''" l] by auto
    then show ?thesis
      using assms[of c] by (auto simp: isSlugChar_def js_def)
  qed
  then show ?thesis by (simp add: filter_id_conv)
qed

section \<open>The slug functions\<close>

text \<open>
  C7. For a heading text of ASCII letters, digits and spaces only, \<open>sluggify\<close> gives the
  text in lower case with every maximal run of spaces replaced by one dash, and its last
  step, which strips the code units outside \<open>[a-z0-9-]\<close>, removes nothing.
\<close>

theorem sluggify_plain_text:
  assumes "list_all isPlainChar H"
  shows "sluggify lc H = spaceRunsToDash (map asciiLower H) \<and>
         filter isSlugChar (replaceRuns isWhiteSpace (js ''-'') (toLowerCase lc H))
           = replaceRuns isWhiteSpace (js ''-'') (toLowerCase lc H)"
proof -
  let ?l = "map asciiLower H"
  have "list_all isAscii H"
    using assms plain_ascii by (simp add: list_all_iff)
  then have low: "toLowerCase lc H = ?l"
    by (rule toLowerCase_ascii)
  have cls: "isLower c \<or> isDigit c \<or> c = 32" if mem: "c \<in> set ?l" for c
  proof -
    obtain d where "d \<in> set H" "c = asciiLower d" using mem by auto
    then show ?thesis
      using assms lower_kinds[of d] by (simp add: list_all_iff isPlainChar_def)
  qed
  have ws: "isWhiteSpace c = (c = 32)" if "c \<in> set ?l" for c
    using cls[OF that] by (rule ws_plain)
  have runs: "replaceRuns isWhiteSpace (js ''-'') ?l = spaceRunsToDash ?l"
    using replaceRuns_cong[of ?l isWhiteSpace "\<lambda>c. c = 32" "js ''-''"] ws
    by (simp add: replaceRuns_space js_def)
  have keep: "filter isSlugChar (replaceRuns isWhiteSpace (js ''-'') ?l)
      = replaceRuns isWhiteSpace (js ''-'') ?l"
  proof (rule slug_of_kinds)
    fix c assume "c \<in> set ?l"
    then show "isLower c \<or> isDigit c \<or> isWhiteSpace c"
      using cls[of c] ws[of c] by blast
  qed
  show ?thesis
    using low runs keep by (simp add: sluggify_def)
qed

text \<open>The heading \<open>Getting  Started 2\<close>, with two spaces in a row.\<close>

theorem sluggify_plain_text_witness:
  "list_all isPlainChar (js ''Getting  Started 2'') \<and>
   sluggify asciiOnly (js ''Getting  Started 2'') = js ''getting-started-2''"
proof -
  have h: "list_all isPlainChar (js ''Getting  Started 2'')"
    by (simp add: isPlainChar_def char_defs)
  have "spaceRunsToDash (map asciiLower (js ''Getting  Started 2'')) = js ''getting-started-2''"
    by (simp add: char_defs)
  then show ?thesis
    using h sluggify_plain_text[OF h, of asciiOnly] by simp
qed

text \<open>
  C1, as the claim states it, fails: for the heading \<open>Node.js setup\<close> the link of the
  table of contents is \<open>nodejs-setup\<close> (the dot is stripped) and the id of the search
  index is \<open>node-js-setup\<close> (the dot becomes a dash).
\<close>

theorem slugs_differ_counterexample:
  "sluggify asciiOnly (js ''Node.js setup'') = js ''nodejs-setup'' \<and>
   headingId asciiOnly (js ''Node.js setup'') = js ''node-js-setup'' \<and>
   sluggify asciiOnly (js ''Node.js setup'') \<noteq> headingId asciiOnly (js ''Node.js setup'')"
  by (simp add: sluggify_def headingId_def toLowerCase_def stripDashes_def char_defs)

text \<open>
  C1, amended. For every heading text of ASCII letters, digits and ASCII white space
  that neither starts nor ends with white space, \<open>sluggify\<close> and the id computed in
  \<open>extractHeadings\<close> are the same string.
\<close>

theorem slugs_agree_on_plain_text:
  assumes cls: "list_all isPlainOrSpaceChar t"
    and first: "t \<noteq> [] \<longrightarrow> \<not> isWhiteSpace (hd t)"
    and lastc: "t \<noteq> [] \<longrightarrow> \<not> isWhiteSpace (last t)"
  shows "sluggify lc t = headingId lc t"
proof (cases "t = []")
  case True
  then show ?thesis
    by (simp add: sluggify_def headingId_def toLowerCase_def stripDashes_def)
next
  case ne: False
  let ?l = "map asciiLower t"
  let ?r = "replaceRuns isWhiteSpace (js ''-'') ?l"
  have "list_all isAscii t"
    using cls plain_space_ascii by (simp add: list_all_iff)
  then have low: "toLowerCase lc t = ?l"
    by (rule toLowerCase_ascii)
  have kinds: "isLower c \<or> isDigit c \<or> isWhiteSpace c" if mem: "c \<in> set ?l" for c
  proof -
    obtain d where "d \<in> set t" "c = asciiLower d" using mem by auto
    then show ?thesis
      using cls lower_kinds_ws[of d] by (simp add: list_all_iff isPlainOrSpaceChar_def)
  qed
  have nw: "(\<not> isWordChar c) = isWhiteSpace c" if "c \<in> set ?l" for c
    using kinds[OF that] by (rule nw_kinds)
  have same: "replaceRuns (\<lambda>c. \<not> isWordChar c) (js ''-'') ?l = ?r"
    using replaceRuns_cong[of ?l "\<lambda>c. \<not> isWordChar c" isWhiteSpace "js ''-''"] nw by simp
  have lne: "?l \<noteq> []" using ne by simp
  have hdl: "\<not> isWhiteSpace (hd ?l)"
    using first ne by (simp add: hd_map ws_lower)
  have lastl: "\<not> isWhiteSpace (last ?l)"
    using lastc ne by (simp add: last_map ws_lower)
  have rne: "?r \<noteq> []"
    using lne by (simp add: replaceRuns_Nil_iff js_def)
  have hd_in: "hd ?l \<in> set ?l" and last_in: "last ?l \<in> set ?l"
    using lne hd_in_set[of ?l] last_in_set[of ?l] by blast+
  have "hd ?r = hd ?l"
    using hd_replaceRuns[of ?l isWhiteSpace "js ''-''"] hdl lne by simp
  then have hdr: "hd ?r \<noteq> 45"
    using dash_kinds[OF kinds[OF hd_in] hdl] by simp
  have "last ?r = last ?l"
    using last_replaceRuns[of ?l isWhiteSpace "js ''-''"] lastl lne by (simp add: js_def)
  then have lastr: "last ?r \<noteq> 45"
    using dash_kinds[OF kinds[OF last_in] lastl] by simp
  have strip: "stripDashes ?r = ?r"
    using stripDashes_id[of ?r] rne hdr lastr by simp
  have keep: "filter isSlugChar ?r = ?r"
    using kinds by (rule slug_of_kinds)
  show ?thesis
    using low same strip keep by (simp add: sluggify_def headingId_def)
qed

text \<open>The heading \<open>Getting Started\<close>: both functions give \<open>getting-started\<close>.\<close>

theorem slugs_agree_on_plain_text_witness:
  "list_all isPlainOrSpaceChar (js ''Getting Started'') \<and>
   sluggify asciiOnly (js ''Getting Started'') = headingId asciiOnly (js ''Getting Started'') \<and>
   headingId asciiOnly (js ''Getting Started'') = js ''getting-started''"
proof -
  have h: "list_all isPlainOrSpaceChar (js ''Getting Started'')"
    by (simp add: isPlainOrSpaceChar_def char_defs)
  have f: "js ''Getting Started'' \<noteq> [] \<longrightarrow> \<not> isWhiteSpace (hd (js ''Getting Started''))"
    by (simp add: char_defs)
  have l: "js ''Getting Started'' \<noteq> [] \<longrightarrow> \<not> isWhiteSpace (last (js ''Getting Started''))"
    by (simp add: char_defs)
  have v: "headingId asciiOnly (js ''Getting Started'') = js ''getting-started''"
    by (simp add: headingId_def toLowerCase_def stripDashes_def char_defs)
  show ?thesis
    using h v slugs_agree_on_plain_text[OF h f l, of asciiOnly] by simp
qed

section \<open>Previous and next page\<close>

lemma findIndexFrom_first:
  "i < length xs \<Longrightarrow> P (xs ! i) \<Longrightarrow> (\<And>j. j < i \<Longrightarrow> \<not> P (xs ! j)) \<Longrightarrow>
   findIndexFrom P k xs = k + int i"
proof (induction xs arbitrary: i k)
  case Nil
  then show ?case by simp
next
  case (Cons x xs)
  show ?case
  proof (cases i)
    case 0
    then show ?thesis using Cons.prems by simp
  next
    case (Suc i')
    have nx: "\<not> P x" using Cons.prems(3)[of 0] Suc by simp
    have "findIndexFrom P (k + 1) xs = (k + 1) + int i'"
    proof (rule Cons.IH)
      show "i' < length xs" using Cons.prems(1) Suc by simp
      show "P (xs ! i')" using Cons.prems(2) Suc by simp
      show "\<not> P (xs ! j)" if "j < i'" for j
        using Cons.prems(3)[of "Suc j"] that Suc by simp
    qed
    then show ?thesis using nx Suc by simp
  qed
qed

lemma findIndexFrom_none:
  "(\<And>x. x \<in> set xs \<Longrightarrow> \<not> P x) \<Longrightarrow> findIndexFrom P k xs = - 1"
  by (induction xs arbitrary: k) auto

text \<open>
  C8. When the path matches the route at index \<open>i\<close> (the first route whose \<open>href\<close> is
  \<open>/\<close> and the path, which is what \<open>findIndex\<close> finds), \<open>getPreviousNext\<close> returns the
  routes at \<open>i - 1\<close> and \<open>i + 1\<close>, \<open>undefined\<close> where that is out of range. For a list
  \<open>[p0, p1, p2]\<close>: a path that matches \<open>p0\<close> gets \<open>{prev: undefined, next: p1}\<close>, and a
  path that matches \<open>p2\<close> and no earlier route gets \<open>{prev: p1, next: undefined}\<close>.
\<close>

theorem getPreviousNext_neighbours:
  "(i < length page_routes \<and> route.href (page_routes ! i) = js ''/'' @ path \<and>
      (\<forall>j < i. route.href (page_routes ! j) \<noteq> js ''/'' @ path) \<longrightarrow>
        getPreviousNext page_routes path =
          \<lparr>prev = (if i = 0 then None else Some (page_routes ! (i - 1))),
           next' = (if i + 1 < length page_routes then Some (page_routes ! (i + 1)) else None)\<rparr>)
   \<and> (route.href p0 = js ''/'' @ path \<longrightarrow>
        getPreviousNext [p0, p1, p2] path = \<lparr>prev = None, next' = Some p1\<rparr>)
   \<and> (route.href p2 = js ''/'' @ path \<and> route.href p0 \<noteq> js ''/'' @ path \<and>
        route.href p1 \<noteq> js ''/'' @ path \<longrightarrow>
        getPreviousNext [p0, p1, p2] path = \<lparr>prev = Some p1, next' = None\<rparr>)"
proof (intro conjI impI)
  assume a: "i < length page_routes \<and> route.href (page_routes ! i) = js ''/'' @ path \<and>
      (\<forall>j < i. route.href (page_routes ! j) \<noteq> js ''/'' @ path)"
  have "findIndex (\<lambda>r. route.href r = js ''/'' @ path) page_routes = int i"
    unfolding findIndex_def
    using findIndexFrom_first[of i page_routes "\<lambda>r. route.href r = js ''/'' @ path" 0] a
    by simp
  moreover have "nat (int i - 1) = i - 1" by simp
  moreover have "nat (int i + 1) = i + 1" by simp
  ultimately show "getPreviousNext page_routes path =
          \<lparr>prev = (if i = 0 then None else Some (page_routes ! (i - 1))),
           next' = (if i + 1 < length page_routes then Some (page_routes ! (i + 1)) else None)\<rparr>"
    using a by (auto simp: getPreviousNext_def arrayGet_def Let_def)
next
  assume "route.href p0 = js ''/'' @ path"
  then show "getPreviousNext [p0, p1, p2] path = \<lparr>prev = None, next' = Some p1\<rparr>"
    by (simp add: getPreviousNext_def findIndex_def arrayGet_def)
next
  assume "route.href p2 = js ''/'' @ path \<and> route.href p0 \<noteq> js ''/'' @ path \<and>
        route.href p1 \<noteq> js ''/'' @ path"
  then show "getPreviousNext [p0, p1, p2] path = \<lparr>prev = Some p1, next' = None\<rparr>"
    by (simp add: getPreviousNext_def findIndex_def arrayGet_def)
qed

text \<open>The three pages of the example, asked for the middle, the first and the last.\<close>

theorem getPreviousNext_neighbours_witness:
  "getPreviousNext exampleRoutes (js ''docs/install'') =
     \<lparr>prev = Some \<lparr>route.title = js ''Intro'', route.href = js ''/docs/intro''\<rparr>,
      next' = Some \<lparr>route.title = js ''Usage'', route.href = js ''/docs/usage''\<rparr>\<rparr>
   \<and> getPreviousNext exampleRoutes (js ''docs/intro'') =
     \<lparr>prev = None,
      next' = Some \<lparr>route.title = js ''Install'', route.href = js ''/docs/install''\<rparr>\<rparr>
   \<and> getPreviousNext exampleRoutes (js ''docs/usage'') =
     \<lparr>prev = Some \<lparr>route.title = js ''Install'', route.href = js ''/docs/install''\<rparr>,
      next' = None\<rparr>"
proof -
  let ?p0 = "\<lparr>route.title = js ''Intro'', route.href = js ''/docs/intro''\<rparr>"
  let ?p1 = "\<lparr>route.title = js ''Install'', route.href = js ''/docs/install''\<rparr>"
  let ?p2 = "\<lparr>route.title = js ''Usage'', route.href = js ''/docs/usage''\<rparr>"
  have mid: "1 < length exampleRoutes \<and>
      route.href (exampleRoutes ! 1) = js ''/'' @ js ''docs/install'' \<and>
      (\<forall>j < 1. route.href (exampleRoutes ! j) \<noteq> js ''/'' @ js ''docs/install'')"
    by (simp add: exampleRoutes_def js_def)
  have a: "getPreviousNext exampleRoutes (js ''docs/install'') =
      \<lparr>prev = Some ?p0, next' = Some ?p2\<rparr>"
    using getPreviousNext_neighbours[of 1 exampleRoutes "js ''docs/install''" ?p0 ?p1 ?p2] mid
    by (simp add: exampleRoutes_def)
  have b: "getPreviousNext exampleRoutes (js ''docs/intro'') =
      \<lparr>prev = None, next' = Some ?p1\<rparr>"
    using getPreviousNext_neighbours[of 0 "[]" "js ''docs/intro''" ?p0 ?p1 ?p2]
    by (simp add: exampleRoutes_def js_def)
  have c: "getPreviousNext exampleRoutes (js ''docs/usage'') =
      \<lparr>prev = Some ?p1, next' = None\<rparr>"
    using getPreviousNext_neighbours[of 0 "[]" "js ''docs/usage''" ?p0 ?p1 ?p2]
    by (simp add: exampleRoutes_def js_def)
  show ?thesis using a b c by simp
qed

text \<open>
  C9. When no route of the list has the \<open>href\<close> of the path, \<open>findIndex\<close> gives \<open>-1\<close>,
  so \<open>prev\<close> is \<open>undefined\<close> and \<open>next\<close> is the element at index \<open>0\<close>: the first route of
  the list (the list has one: the route table is not empty).
\<close>

theorem getPreviousNext_not_found:
  assumes "\<forall>r \<in> set page_routes. route.href r \<noteq> js ''/'' @ path"
    and "page_routes \<noteq> []"
  shows "getPreviousNext page_routes path = \<lparr>prev = None, next' = Some (hd page_routes)\<rparr>"
proof -
  have "findIndex (\<lambda>r. route.href r = js ''/'' @ path) page_routes = - 1"
    unfolding findIndex_def using assms(1) by (intro findIndexFrom_none) auto
  then show ?thesis
    using assms(2) by (cases page_routes) (simp_all add: getPreviousNext_def arrayGet_def)
qed

text \<open>A path that is no page of the example.\<close>

theorem getPreviousNext_not_found_witness:
  "getPreviousNext exampleRoutes (js ''docs/missing'') =
     \<lparr>prev = None,
      next' = Some \<lparr>route.title = js ''Intro'', route.href = js ''/docs/intro''\<rparr>\<rparr>"
proof -
  have a: "\<forall>r \<in> set exampleRoutes. route.href r \<noteq> js ''/'' @ js ''docs/missing''"
    by (simp add: exampleRoutes_def js_def)
  have b: "exampleRoutes \<noteq> []" by (simp add: exampleRoutes_def)
  show ?thesis
    using getPreviousNext_not_found[OF a b] by (simp add: exampleRoutes_def)
qed

section \<open>Resolving a slug\<close>

text \<open>
  C4. A slug that ends with \<open>.mdx\<close> resolves to the joined path under the content root,
  whatever the file system holds. Any other slug resolves to the path of \<open>slug.mdx\<close>
  when \<open>fs.stat\<close> of it succeeds, and to the path of \<open>slug/index.mdx\<close> when that probe
  fails; the second path is not probed. The call never throws.
\<close>

theorem getDocsContentPath_fallback:
  "(endsWith slug (js ''.mdx'') \<longrightarrow>
      (\<forall>w'. getDocsContentPath rt w' slug =
         Inr (path_join rt [process_cwd rt, js ''/contents/docs/'', slug])))
   \<and> (\<not> endsWith slug (js ''.mdx'') \<and>
        stat w (path_join rt [process_cwd rt, js ''/contents/docs/'', slug @ js ''.mdx''])
          = Inr () \<longrightarrow>
      getDocsContentPath rt w slug =
        Inr (path_join rt [process_cwd rt, js ''/contents/docs/'', slug @ js ''.mdx'']))
   \<and> (\<not> endsWith slug (js ''.mdx'') \<and>
        stat w (path_join rt [process_cwd rt, js ''/contents/docs/'', slug @ js ''.mdx''])
          = Inl e \<longrightarrow>
      getDocsContentPath rt w slug =
        Inr (path_join rt [process_cwd rt, js ''/contents/docs/'', slug @ js ''/index.mdx'']))
   \<and> (\<exists>p. getDocsContentPath rt w slug = Inr p)"
  by (auto simp: getDocsContentPath_def Let_def split: sum.splits)

text \<open>
  In the first world: \<open>zzz.mdx\<close> resolves to itself though no such file exists,
  \<open>a/notes\<close> to the file \<open>a/notes.mdx\<close>, and \<open>zzz\<close> to \<open>zzz/index.mdx\<close>, which does not
  exist either.
\<close>

theorem getDocsContentPath_fallback_witness:
  "getDocsContentPath exampleRuntime goodWorld (js ''zzz.mdx'')
     = Inr (js ''/site/contents/docs/zzz.mdx'')
   \<and> stat goodWorld (js ''/site/contents/docs/zzz.mdx'') = Inl (Error (js ''ENOENT''))
   \<and> getDocsContentPath exampleRuntime goodWorld (js ''a/notes'')
     = Inr (js ''/site/contents/docs/a/notes.mdx'')
   \<and> getDocsContentPath exampleRuntime goodWorld (js ''zzz'')
     = Inr (js ''/site/contents/docs/zzz/index.mdx'')
   \<and> stat goodWorld (js ''/site/contents/docs/zzz/index.mdx'') = Inl (Error (js ''ENOENT''))"
proof -
  have j1: "path_join exampleRuntime
      [process_cwd exampleRuntime, js ''/contents/docs/'', js ''zzz.mdx'']
      = js ''/site/contents/docs/zzz.mdx''"
    by (simp add: example_defs)
  have j2: "path_join exampleRuntime
      [process_cwd exampleRuntime, js ''/contents/docs/'', js ''a/notes'' @ js ''.mdx'']
      = js ''/site/contents/docs/a/notes.mdx''"
    by (simp add: example_defs)
  have j3: "path_join exampleRuntime
      [process_cwd exampleRuntime, js ''/contents/docs/'', js ''zzz'' @ js ''.mdx'']
      = js ''/site/contents/docs/zzz.mdx''"
    by (simp add: example_defs)
  have j4: "path_join exampleRuntime
      [process_cwd exampleRuntime, js ''/contents/docs/'', js ''zzz'' @ js ''/index.mdx'']
      = js ''/site/contents/docs/zzz/index.mdx''"
    by (simp add: example_defs)
  have e1: "endsWith (js ''zzz.mdx'') (js ''.mdx'')" by (simp add: endsWith_def js_def)
  have e2: "\<not> endsWith (js ''a/notes'') (js ''.mdx'')" by (simp add: endsWith_def js_def)
  have e3: "\<not> endsWith (js ''zzz'') (js ''.mdx'')" by (simp add: endsWith_def js_def)
  have s1: "stat goodWorld (js ''/site/contents/docs/zzz.mdx'') = Inl (Error (js ''ENOENT''))"
    by (simp add: example_defs)
  have s2: "stat goodWorld (js ''/site/contents/docs/a/notes.mdx'') = Inr ()"
    by (simp add: example_defs)
  have s4: "stat goodWorld (js ''/site/contents/docs/zzz/index.mdx'')
      = Inl (Error (js ''ENOENT''))"
    by (simp add: example_defs)
  have a: "getDocsContentPath exampleRuntime goodWorld (js ''zzz.mdx'')
      = Inr (js ''/site/contents/docs/zzz.mdx'')"
    using getDocsContentPath_fallback[of "js ''zzz.mdx''" exampleRuntime goodWorld] e1 j1
    by simp
  have b: "getDocsContentPath exampleRuntime goodWorld (js ''a/notes'')
      = Inr (js ''/site/contents/docs/a/notes.mdx'')"
    using getDocsContentPath_fallback[of "js ''a/notes''" exampleRuntime goodWorld] e2 j2 s2
    by simp
  have c: "getDocsContentPath exampleRuntime goodWorld (js ''zzz'')
      = Inr (js ''/site/contents/docs/zzz/index.mdx'')"
    using getDocsContentPath_fallback[of "js ''zzz''" exampleRuntime goodWorld
        "Error (js ''ENOENT'')"] e3 j3 j4 s1
    by simp
  show ?thesis using a b c s1 s4 by simp
qed

section \<open>Discovery\<close>

lemma indexPaths_append: "indexPaths (xs @ ys) = indexPaths xs @ indexPaths ys"
  by (simp add: indexPaths_def)

lemma walk_readable:
  "readable d \<longrightarrow> (\<forall>n es. d = DirEnt n es \<longrightarrow>
       getAllIndexMDXFiles join dir d = Inr (indexPaths (filesBelow join dir es)))"
  "readableAll es \<longrightarrow>
       forEachEntry join dir es files = Inr (files @ indexPaths (filesBelow join dir es))"
proof (induction join dir d and join dir es files rule: getAllIndexMDXFiles_forEachEntry.induct)
  case (1 join dir n es)
  then show ?case by simp
next
  case (2 join dir n e)
  then show ?case by simp
next
  case (3 join dir n)
  then show ?case by simp
next
  case (4 join dir n)
  then show ?case by simp
next
  case (5 join dir files)
  then show ?case by (simp add: indexPaths_def)
next
  case (6 join dir entry rest files)
  show ?case
  proof (intro impI)
    assume r: "readableAll (entry # rest)"
    then have re: "readable entry" and rr: "readableAll rest" by simp_all
    show "forEachEntry join dir (entry # rest) files =
        Inr (files @ indexPaths (filesBelow join dir (entry # rest)))"
    proof (cases entry)
      case (FileEnt n)
      then show ?thesis
        using 6(3)[OF refl] 6(4)[OF refl] rr
        by (auto simp: indexPaths_def Let_def)
    next
      case (DirEnt n es)
      have sub: "getAllIndexMDXFiles join (join [dir, name entry]) entry
          = Inr (indexPaths (filesBelow join (join [dir, name entry]) es))"
        using 6(1)[OF refl] re DirEnt by simp
      have "forEachEntry join dir rest
            (files @ indexPaths (filesBelow join (join [dir, name entry]) es))
          = Inr ((files @ indexPaths (filesBelow join (join [dir, name entry]) es))
                  @ indexPaths (filesBelow join dir rest))"
        using 6(2)[OF refl _ sub] rr DirEnt by simp
      then show ?thesis
        using sub DirEnt by (simp add: Let_def indexPaths_append)
    next
      case (BadDirEnt n e)
      then show ?thesis using re by simp
    next
      case (OtherEnt n)
      then show ?thesis
        using 6(4)[OF refl] rr by (simp add: indexPaths_def Let_def)
    qed
  qed
qed

lemma walk_unreadable:
  "\<not> readable d \<longrightarrow> (\<exists>e. getAllIndexMDXFiles join dir d = Inl e)"
  "\<not> readableAll es \<longrightarrow> (\<exists>e. forEachEntry join dir es files = Inl e)"
proof (induction join dir d and join dir es files rule: getAllIndexMDXFiles_forEachEntry.induct)
  case (1 join dir n es)
  then show ?case by simp
next
  case (2 join dir n e)
  then show ?case by simp
next
  case (3 join dir n)
  then show ?case by simp
next
  case (4 join dir n)
  then show ?case by simp
next
  case (5 join dir files)
  then show ?case by simp
next
  case (6 join dir entry rest files)
  show ?case
  proof (intro impI)
    assume nr: "\<not> readableAll (entry # rest)"
    show "\<exists>e. forEachEntry join dir (entry # rest) files = Inl e"
    proof (cases "isDirectory entry")
      case True
      show ?thesis
      proof (cases "getAllIndexMDXFiles join (join [dir, name entry]) entry")
        case (Inl e)
        then show ?thesis using True by (simp add: Let_def)
      next
        case (Inr sub)
        then have "readable entry" using 6(1)[OF refl True] by auto
        then have "\<not> readableAll rest" using nr by simp
        then show ?thesis
          using 6(2)[OF refl True Inr] Inr True by (simp add: Let_def)
      qed
    next
      case False
      then have "readable entry" by (cases entry) simp_all
      then have nrr: "\<not> readableAll rest" using nr by simp
      show ?thesis
        using False nrr 6(3)[OF refl False] 6(4)[OF refl False]
        by (auto simp: Let_def)
    qed
  qed
qed

text \<open>
  C5. Over a tree whose directories can all be read, discovery returns the paths of
  the regular files named exactly \<open>index.mdx\<close>, at any depth, in the order of the walk,
  and no other path: as a set, exactly the paths of those files. Over any other tree
  the call throws and returns no list.
\<close>

theorem getAllIndexMDXFiles_index_files:
  "(readableAll es \<longrightarrow>
      getAllIndexMDXFiles join dir (DirEnt n es) = Inr (indexPaths (filesBelow join dir es)))
   \<and> (\<not> readableAll es \<longrightarrow> (\<exists>e. getAllIndexMDXFiles join dir (DirEnt n es) = Inl e))
   \<and> set (indexPaths (filesBelow join dir es))
        = {p. (p, js ''index.mdx'') \<in> set (filesBelow join dir es)}"
proof (intro conjI)
  show "readableAll es \<longrightarrow>
      getAllIndexMDXFiles join dir (DirEnt n es) = Inr (indexPaths (filesBelow join dir es))"
    using walk_readable(1)[of "DirEnt n es" join dir] by simp
  show "\<not> readableAll es \<longrightarrow> (\<exists>e. getAllIndexMDXFiles join dir (DirEnt n es) = Inl e)"
    using walk_unreadable(1)[of "DirEnt n es" join dir] by simp
  show "set (indexPaths (filesBelow join dir es))
        = {p. (p, js ''index.mdx'') \<in> set (filesBelow join dir es)}"
    by (force simp: indexPaths_def)
qed

text \<open>
  The tree of the specification: the two index files are returned, and \<open>a/notes.mdx\<close>,
  a file of the tree, is not.
\<close>

theorem getAllIndexMDXFiles_index_files_witness:
  "getAllIndexMDXFiles posixJoin (js ''/site/contents/docs'') exampleDocs
     = Inr [js ''/site/contents/docs/a/index.mdx'', js ''/site/contents/docs/a/b/index.mdx'']
   \<and> (js ''/site/contents/docs/a/notes.mdx'', js ''notes.mdx'')
       \<in> set (filesOfEntry posixJoin (js ''/site/contents'') exampleDocs)"
proof -
  let ?es = "[DirEnt (js ''a'')
          [FileEnt (js ''index.mdx''),
           DirEnt (js ''b'') [FileEnt (js ''index.mdx'')],
           FileEnt (js ''notes.mdx'')]]"
  have r: "readableAll ?es" by simp
  have fb: "filesBelow posixJoin (js ''/site/contents/docs'') ?es
      = [(js ''/site/contents/docs/a/index.mdx'', js ''index.mdx''),
         (js ''/site/contents/docs/a/b/index.mdx'', js ''index.mdx''),
         (js ''/site/contents/docs/a/notes.mdx'', js ''notes.mdx'')]"
    by (simp add: posixJoin_def posixNormalize_def js_def)
  have ip: "indexPaths (filesBelow posixJoin (js ''/site/contents/docs'') ?es)
      = [js ''/site/contents/docs/a/index.mdx'', js ''/site/contents/docs/a/b/index.mdx'']"
    by (simp only: fb) (simp add: indexPaths_def js_def)
  have d: "posixJoin [js ''/site/contents'', js ''docs''] = js ''/site/contents/docs''"
    by (simp add: posixJoin_def posixNormalize_def js_def)
  have mem: "(js ''/site/contents/docs/a/notes.mdx'', js ''notes.mdx'')
       \<in> set (filesOfEntry posixJoin (js ''/site/contents'') exampleDocs)"
  proof -
    have "filesOfEntry posixJoin (js ''/site/contents'') exampleDocs
        = filesBelow posixJoin (js ''/site/contents/docs'') ?es"
      by (simp only: exampleDocs_def filesOfEntry.simps d)
    then show ?thesis by (simp only: fb) simp
  qed
  show ?thesis
    using getAllIndexMDXFiles_index_files[of ?es posixJoin "js ''/site/contents/docs''"
        "js ''docs''"] r ip mem
    by (simp add: exampleDocs_def)
qed

section \<open>Headings of the search index\<close>

lemma directText_concat:
  "concat (map (\<lambda>child. case nvalue child of None \<Rightarrow> [] | Some v \<Rightarrow> v)
     (filter (\<lambda>child. ntype child = js ''text'') cs)) = directText cs"
  by (induction cs) auto

lemma directText_needs_text:
  "directText cs \<noteq> [] \<Longrightarrow> list_ex (\<lambda>c. ntype c = js ''text'') cs"
  by (induction cs) (auto split: if_splits)

lemma headingId_Nil: "headingId lc [] = []"
  by (simp add: headingId_def toLowerCase_def stripDashes_def)

lemma emitsEntry_iff:
  "emitsEntry lc n \<longleftrightarrow>
     directText (children n) \<noteq> [] \<and> headingId lc (directText (children n)) \<noteq> []"
  using directText_needs_text[of "children n"] headingId_Nil[of lc]
  by (auto simp: emitsEntry_def hasPlainText_def)

lemma visitor_entry:
  "visitor lc n hs = hs @ (if emitsEntry lc n then [entryOf lc n] else [])"
  by (simp add: visitor_def Let_def directText_concat emitsEntry_iff entryOf_def)

lemma visit_entries:
  "visit lc tree hs = hs @ map (entryOf lc) (filter (emitsEntry lc) (headingNodes tree))"
  "visitChildren lc cs hs
     = hs @ map (entryOf lc) (filter (emitsEntry lc) (headingNodesOf cs))"
proof (induction lc tree hs and lc cs hs rule: visit_visitChildren.induct)
  case (1 lc t v cs hs)
  then show ?case by (simp add: visitor_entry)
next
  case (2 lc hs)
  then show ?case by simp
next
  case (3 lc c cs hs)
  then show ?case by simp
qed

lemma entries_nonempty:
  "h \<in> set (map (entryOf lc) (filter (emitsEntry lc) ns)) \<Longrightarrow>
     heading.text' h \<noteq> [] \<and> heading.id' h \<noteq> []"
  by (auto simp: emitsEntry_iff entryOf_def)

lemma extract_headings_of_tree:
  "extractTextFromMDX rt w filePath = Inr doc \<Longrightarrow>
     \<exists>tree. headings doc = visit (caseTable rt) tree []"
  by (auto simp: extractTextFromMDX_def extractHeadings_def Let_def
      split: sum.splits prod.splits)

text \<open>
  C10. The headings extracted from a tree are one entry for every heading node that
  has a plain-text child and whose direct text normalises to an id that is not empty,
  in document order, and nothing for any other heading node. So every entry, and every
  entry of the \<open>headings\<close> of a \<open>SearchDocument\<close>, has a text and an id that are not
  empty.
\<close>

theorem extractHeadings_entries_nonempty:
  "visit lc tree [] = map (entryOf lc) (filter (emitsEntry lc) (headingNodes tree))
   \<and> (\<forall>h \<in> set (visit lc tree []). heading.text' h \<noteq> [] \<and> heading.id' h \<noteq> [])
   \<and> (extractTextFromMDX rt w filePath = Inr doc \<longrightarrow>
        (\<forall>h \<in> set (headings doc). heading.text' h \<noteq> [] \<and> heading.id' h \<noteq> []))"
proof (intro conjI)
  show a: "visit lc tree [] = map (entryOf lc) (filter (emitsEntry lc) (headingNodes tree))"
    by (simp add: visit_entries(1))
  show "\<forall>h \<in> set (visit lc tree []). heading.text' h \<noteq> [] \<and> heading.id' h \<noteq> []"
    using entries_nonempty[of _ lc "headingNodes tree"] by (simp only: a) blast
  show "extractTextFromMDX rt w filePath = Inr doc \<longrightarrow>
        (\<forall>h \<in> set (headings doc). heading.text' h \<noteq> [] \<and> heading.id' h \<noteq> [])"
  proof
    assume "extractTextFromMDX rt w filePath = Inr doc"
    then obtain t where t: "headings doc = visit (caseTable rt) t []"
      using extract_headings_of_tree by blast
    show "\<forall>h \<in> set (headings doc). heading.text' h \<noteq> [] \<and> heading.id' h \<noteq> []"
      using entries_nonempty[of _ "caseTable rt" "headingNodes t"]
      by (simp only: t visit_entries(1) append_Nil) blast
  qed
qed

lemma good_extract_a:
  "extractTextFromMDX exampleRuntime goodWorld (js ''/site/contents/docs/a/index.mdx'')
     = Inr docA"
  by (simp add: extract_defs example_defs docA_def)

lemma good_extract_b:
  "extractTextFromMDX exampleRuntime goodWorld (js ''/site/contents/docs/a/b/index.mdx'')
     = Inr docB"
  by (simp add: extract_defs example_defs docB_def)

text \<open>
  The example tree gives one entry, for \<open>Foo\<close>: the heading that is all emphasis has no
  plain-text child, and \<open>!!!\<close> normalises to the empty id. The document \<open>a/index.mdx\<close> of
  the first world has the one heading \<open>Foo\<close> with the id \<open>foo\<close>.
\<close>

theorem extractHeadings_entries_nonempty_witness:
  "visit asciiOnly exampleTree [] = [\<lparr>heading.text' = js ''Foo'', heading.id' = js ''foo''\<rparr>]
   \<and> \<not> hasPlainText (Node (js ''heading'') None
          [Node (js ''emphasis'') None [Node (js ''text'') (Some (js ''Bar'')) []]])
   \<and> headingId asciiOnly (js ''!!!'') = []
   \<and> heading.text' (hd (headings docA)) \<noteq> [] \<and> heading.id' (hd (headings docA)) \<noteq> []"
proof -
  have "map (entryOf asciiOnly) (filter (emitsEntry asciiOnly) (headingNodes exampleTree))
      = [\<lparr>heading.text' = js ''Foo'', heading.id' = js ''foo''\<rparr>]"
    by (simp add: exampleTree_def emitsEntry_def hasPlainText_def entryOf_def headingId_def
        toLowerCase_def stripDashes_def char_defs)
  moreover have "\<not> hasPlainText (Node (js ''heading'') None
          [Node (js ''emphasis'') None [Node (js ''text'') (Some (js ''Bar'')) []]])"
    by (simp add: hasPlainText_def js_def)
  moreover have "headingId asciiOnly (js ''!!!'') = []"
    by (simp add: headingId_def toLowerCase_def stripDashes_def char_defs)
  moreover have "hd (headings docA) \<in> set (headings docA)"
    by (simp add: docA_def)
  ultimately show ?thesis
    using extractHeadings_entries_nonempty[of asciiOnly exampleTree exampleRuntime goodWorld
        "js ''/site/contents/docs/a/index.mdx''" docA] good_extract_a
    by simp
qed

section \<open>The batch run\<close>

lemma example_files:
  "getAllIndexMDXFiles (path_join exampleRuntime) (DOCS_ROOT exampleRuntime) exampleDocs
     = Inr [js ''/site/contents/docs/a/index.mdx'', js ''/site/contents/docs/a/b/index.mdx'']"
  by (simp add: example_defs)

lemma example_docs_world:
  "docs goodWorld = exampleDocs" "docs badWorld = exampleDocs" "docs readOnlyWorld = exampleDocs"
  by (simp_all add: goodWorld_def badWorld_def readOnlyWorld_def)

lemma bad_extract_a:
  "extractTextFromMDX exampleRuntime badWorld (js ''/site/contents/docs/a/index.mdx'')
     = Inr docA"
  by (simp add: extract_defs example_defs docA_def)

lemma bad_extract_b:
  "extractTextFromMDX exampleRuntime badWorld (js ''/site/contents/docs/a/b/index.mdx'')
     = Inl (Error (js ''EACCES''))"
  by (simp add: extractTextFromMDX_def example_defs)

lemma extract_frame:
  "fileContents w' = fileContents w \<Longrightarrow>
     extractTextFromMDX rt w' p = extractTextFromMDX rt w p"
  by (simp add: extractTextFromMDX_def readFile_def)

lemma Promise_all_rejects: "Inl e \<in> set ps \<Longrightarrow> \<exists>e'. Promise_all ps = Inl e'"
  by (induction ps rule: Promise_all.induct) (auto split: sum.splits)

lemma Promise_all_reason: "Promise_all ps = Inl e \<Longrightarrow> Inl e \<in> set ps"
  by (induction ps rule: Promise_all.induct) (auto split: sum.splits)

lemma exit_zero: "exitStatus (script rt w) = 0"
  by (simp add: exitStatus_def script_def catch_def split: prod.splits sum.splits)

text \<open>
  C2. When the extraction of one discovered document fails, \<open>generateSearchIndex\<close> is
  rejected and leaves the world as it found it: nothing is written, and after the
  script every path, the artifact among them, reads as before.
\<close>

theorem failed_extraction_writes_nothing:
  assumes "getAllIndexMDXFiles (path_join rt) (DOCS_ROOT rt) (docs w) = Inr files"
    and "file \<in> set files"
    and "extractTextFromMDX rt w file = Inl e"
  shows "snd (generateSearchIndex rt w) = w
    \<and> (\<exists>e'. fst (generateSearchIndex rt w) = Inl e')
    \<and> fileContents (snd (script rt w)) = fileContents w"
proof -
  have "Inl e \<in> set (map (\<lambda>file. extractTextFromMDX rt w file) files)"
    using assms(2,3) by force
  then obtain e' where
    "Promise_all (map (\<lambda>file. extractTextFromMDX rt w file) files) = Inl e'"
    using Promise_all_rejects by blast
  then have g: "generateSearchIndex rt w = (Inl e', w)"
    using assms(1) by (simp add: generateSearchIndex_def)
  then show ?thesis
    by (simp add: script_def catch_def console_error_def)
qed

text \<open>
  The second world, where \<open>a/b/index.mdx\<close> cannot be read: the artifact still holds
  \<open>old\<close> after the run.
\<close>

theorem failed_extraction_writes_nothing_witness:
  "snd (generateSearchIndex exampleRuntime badWorld) = badWorld
   \<and> fileContents (snd (script exampleRuntime badWorld)) (js ''/site/public/search-index.json'')
       = Inr (js ''old'')"
proof -
  have f: "getAllIndexMDXFiles (path_join exampleRuntime) (DOCS_ROOT exampleRuntime)
      (docs badWorld)
     = Inr [js ''/site/contents/docs/a/index.mdx'', js ''/site/contents/docs/a/b/index.mdx'']"
    by (simp add: example_docs_world example_files)
  have m: "js ''/site/contents/docs/a/b/index.mdx''
      \<in> set [js ''/site/contents/docs/a/index.mdx'', js ''/site/contents/docs/a/b/index.mdx'']"
    by simp
  have old: "fileContents badWorld (js ''/site/public/search-index.json'') = Inr (js ''old'')"
    by (simp add: example_defs)
  show ?thesis
    using failed_extraction_writes_nothing[OF f m bad_extract_b] old by simp
qed

text \<open>
  C3, as the claim states it, fails: in the second world the extraction of
  \<open>a/b/index.mdx\<close> fails, the error is logged, and the process ends with status \<open>0\<close>,
  since \<open>catch\<close> has handled the rejection and nothing sets another status.
\<close>

theorem failed_run_exits_zero_counterexample:
  "getAllIndexMDXFiles (path_join exampleRuntime) (DOCS_ROOT exampleRuntime) (docs badWorld)
     = Inr [js ''/site/contents/docs/a/index.mdx'', js ''/site/contents/docs/a/b/index.mdx'']
   \<and> extractTextFromMDX exampleRuntime badWorld (js ''/site/contents/docs/a/b/index.mdx'')
     = Inl (Error (js ''EACCES''))
   \<and> console (snd (script exampleRuntime badWorld)) = [ErrorLog (Error (js ''EACCES''))]
   \<and> exitStatus (script exampleRuntime badWorld) = 0"
proof -
  have "generateSearchIndex exampleRuntime badWorld = (Inl (Error (js ''EACCES'')), badWorld)"
    by (simp add: generateSearchIndex_def example_docs_world example_files bad_extract_a
        bad_extract_b)
  then have "console (snd (script exampleRuntime badWorld))
      = [ErrorLog (Error (js ''EACCES''))]"
    by (simp add: script_def catch_def console_error_def badWorld_def)
  then show ?thesis
    by (simp add: example_docs_world example_files bad_extract_b exit_zero)
qed

text \<open>
  C3, amended. When the extraction of a discovered document fails, the script logs the
  error of a failed extraction; when every extraction succeeds and the write fails, it
  logs the error of the write; in both cases the process ends with status \<open>0\<close>. When
  \<open>generateSearchIndex\<close> succeeds the script prints the confirmation message, and the
  status is \<open>0\<close> as well.
\<close>

theorem script_logs_and_exits_zero:
  "(getAllIndexMDXFiles (path_join rt) (DOCS_ROOT rt) (docs w) = Inr files \<and>
      file \<in> set files \<and> extractTextFromMDX rt w file = Inl e \<longrightarrow>
      (\<exists>f e'. f \<in> set files \<and> extractTextFromMDX rt w f = Inl e' \<and>
         console (snd (script rt w)) = console w @ [ErrorLog e']) \<and>
      exitStatus (script rt w) = 0)
   \<and> (getAllIndexMDXFiles (path_join rt) (DOCS_ROOT rt) (docs w) = Inr files \<and>
      Promise_all (map (\<lambda>file. extractTextFromMDX rt w file) files) = Inr index \<and>
      writeFailure w (OUTPUT_FILE rt) = Some e \<longrightarrow>
      console (snd (script rt w)) = console w @ [ErrorLog e] \<and> exitStatus (script rt w) = 0)
   \<and> (fst (generateSearchIndex rt w) = Inr () \<longrightarrow>
      console (snd (script rt w))
        = console w @ [Log ([9989, 32] @ js ''Search index generated: '' @ OUTPUT_FILE rt)] \<and>
      exitStatus (script rt w) = 0)"
proof (intro conjI impI)
  assume a: "getAllIndexMDXFiles (path_join rt) (DOCS_ROOT rt) (docs w) = Inr files \<and>
      file \<in> set files \<and> extractTextFromMDX rt w file = Inl e"
  then have "Inl e \<in> set (map (\<lambda>file. extractTextFromMDX rt w file) files)" by force
  then obtain e' where
    p: "Promise_all (map (\<lambda>file. extractTextFromMDX rt w file) files) = Inl e'"
    using Promise_all_rejects by blast
  then have "Inl e' \<in> set (map (\<lambda>file. extractTextFromMDX rt w file) files)"
    by (rule Promise_all_reason)
  then obtain f where f: "f \<in> set files" "extractTextFromMDX rt w f = Inl e'" by auto
  have "generateSearchIndex rt w = (Inl e', w)"
    using a p by (simp add: generateSearchIndex_def)
  then have "console (snd (script rt w)) = console w @ [ErrorLog e']"
    by (simp add: script_def catch_def console_error_def)
  then show "\<exists>f e'. f \<in> set files \<and> extractTextFromMDX rt w f = Inl e' \<and>
         console (snd (script rt w)) = console w @ [ErrorLog e']"
    using f by blast
next
  assume "getAllIndexMDXFiles (path_join rt) (DOCS_ROOT rt) (docs w) = Inr files \<and>
      Promise_all (map (\<lambda>file. extractTextFromMDX rt w file) files) = Inr index \<and>
      writeFailure w (OUTPUT_FILE rt) = Some e"
  then have "generateSearchIndex rt w = (Inl e, w)"
    by (simp add: generateSearchIndex_def writeFileSync_def)
  then show "console (snd (script rt w)) = console w @ [ErrorLog e]"
    by (simp add: script_def catch_def console_error_def)
next
  assume ok: "fst (generateSearchIndex rt w) = Inr ()"
  then obtain files index w' where
    w': "writeFileSync (OUTPUT_FILE rt) (JSON_stringify rt index) w = Inr w'"
    and g: "generateSearchIndex rt w =
      (Inr (), console_log ([9989, 32] @ js ''Search index generated: '' @ OUTPUT_FILE rt) w')"
    by (auto simp: generateSearchIndex_def split: sum.splits)
  have "console w' = console w"
    using w' by (auto simp: writeFileSync_def split: option.splits)
  then show "console (snd (script rt w))
        = console w @ [Log ([9989, 32] @ js ''Search index generated: '' @ OUTPUT_FILE rt)]"
    using g by (simp add: script_def catch_def console_log_def)
qed (rule exit_zero)+

text \<open>
  The three worlds: an extraction that fails, a write that fails, and a run that
  succeeds.
\<close>

theorem script_logs_and_exits_zero_witness:
  "console (snd (script exampleRuntime badWorld)) = [ErrorLog (Error (js ''EACCES''))]
   \<and> exitStatus (script exampleRuntime badWorld) = 0
   \<and> console (snd (script exampleRuntime readOnlyWorld)) = [ErrorLog (Error (js ''EROFS''))]
   \<and> console (snd (script exampleRuntime goodWorld))
       = [Log ([9989, 32] @ js ''Search index generated: /site/public/search-index.json'')]"
proof -
  let ?files = "[js ''/site/contents/docs/a/index.mdx'', js ''/site/contents/docs/a/b/index.mdx'']"
  have f: "getAllIndexMDXFiles (path_join exampleRuntime) (DOCS_ROOT exampleRuntime)
      (docs badWorld) = Inr ?files"
    by (simp add: example_docs_world example_files)
  have m: "js ''/site/contents/docs/a/b/index.mdx'' \<in> set ?files" by simp
  have only: "\<And>f e'. f \<in> set ?files \<Longrightarrow>
      extractTextFromMDX exampleRuntime badWorld f = Inl e' \<Longrightarrow> e' = Error (js ''EACCES'')"
    using bad_extract_a bad_extract_b by auto
  have c0: "console badWorld = []" "console goodWorld = []" "console readOnlyWorld = []"
    by (simp_all add: example_defs)
  have bad: "console (snd (script exampleRuntime badWorld)) = [ErrorLog (Error (js ''EACCES''))]"
    using script_logs_and_exits_zero[of exampleRuntime badWorld ?files
        "js ''/site/contents/docs/a/b/index.mdx''" "Error (js ''EACCES'')"]
      f m bad_extract_b only c0
    by auto
  have fr: "getAllIndexMDXFiles (path_join exampleRuntime) (DOCS_ROOT exampleRuntime)
      (docs readOnlyWorld) = Inr ?files"
    by (simp add: example_docs_world example_files)
  have same: "fileContents readOnlyWorld = fileContents goodWorld"
    by (simp add: readOnlyWorld_def)
  have all: "Promise_all (map (\<lambda>file. extractTextFromMDX exampleRuntime readOnlyWorld file) ?files)
      = Inr [docA, docB]"
    by (simp add: extract_frame[OF same] good_extract_a good_extract_b)
  have wf: "writeFailure readOnlyWorld (OUTPUT_FILE exampleRuntime) = Some (Error (js ''EROFS''))"
    by (simp add: readOnlyWorld_def alwaysFails_def)
  have ro: "console (snd (script exampleRuntime readOnlyWorld)) = [ErrorLog (Error (js ''EROFS''))]"
    using script_logs_and_exits_zero[of exampleRuntime readOnlyWorld ?files _
        "Error (js ''EROFS'')" "[docA, docB]"] fr all wf c0
    by simp
  have out: "OUTPUT_FILE exampleRuntime = js ''/site/public/search-index.json''"
    by (simp add: example_defs)
  have wfg: "writeFailure goodWorld (OUTPUT_FILE exampleRuntime) = None"
    by (simp add: goodWorld_def neverFails_def)
  have okg: "fst (generateSearchIndex exampleRuntime goodWorld) = Inr ()"
    by (simp add: generateSearchIndex_def example_docs_world example_files good_extract_a
        good_extract_b writeFileSync_def wfg)
  have good: "console (snd (script exampleRuntime goodWorld))
       = [Log ([9989, 32] @ js ''Search index generated: /site/public/search-index.json'')]"
    using script_logs_and_exits_zero[of exampleRuntime goodWorld] okg c0 out
    by (simp add: js_def)
  show ?thesis
    using bad ro good exit_zero by simp
qed

section \<open>The table of contents\<close>

lemma hash_not_terminator: "c = 35 \<Longrightarrow> \<not> isLineTerminator c"
  by (simp add: isLineTerminator_def)

lemma splitWhere_unfold:
  "splitWhere P s = takeWhile (\<lambda>c. \<not> P c) s #
     (case dropWhile (\<lambda>c. \<not> P c) s of [] \<Rightarrow> [] | t # r \<Rightarrow> splitWhere P r)"
  by (induction s) (auto split: list.splits)

lemma takeWhile_takeWhile:
  "(\<And>c. Q c \<Longrightarrow> R c) \<Longrightarrow> takeWhile Q (takeWhile R s) = takeWhile Q s"
  by (induction s) auto

lemma dropWhile_takeWhile:
  "(\<And>c. Q c \<Longrightarrow> R c) \<Longrightarrow> dropWhile Q (takeWhile R s) = takeWhile R (dropWhile Q s)"
  by (induction s) auto

lemma dropWhile_dropWhile:
  "(\<And>c. Q c \<Longrightarrow> R c) \<Longrightarrow> dropWhile R (dropWhile Q s) = dropWhile R s"
  by (induction s) auto

lemma exec_skip:
  "headingsRegex_exec False s =
     (case dropWhile (\<lambda>c. \<not> isLineTerminator c) s of [] \<Rightarrow> None | t # r \<Rightarrow> headingsRegex_exec True r)"
  by (induction s) auto

lemma exec_bol:
  "headingsRegex_exec True s =
     (case headingsRegex_at s of
        Some m \<Rightarrow> Some m
      | None \<Rightarrow> (case dropWhile (\<lambda>c. \<not> isLineTerminator c) s of [] \<Rightarrow> None | t # r \<Rightarrow> headingsRegex_exec True r))"
proof (cases s)
  case Nil
  then show ?thesis by (simp add: headingsRegex_at_def)
next
  case (Cons c cs)
  show ?thesis
  proof (cases "headingsRegex_at s")
    case None
    then show ?thesis using Cons exec_skip[of cs] by auto
  next
    case (Some m)
    then show ?thesis using Cons by simp
  qed
qed

lemma extractToc_skip:
  "extractToc lc False s =
     (case dropWhile (\<lambda>c. \<not> isLineTerminator c) s of [] \<Rightarrow> [] | t # r \<Rightarrow> extractToc lc True r)"
proof (cases "dropWhile (\<lambda>c. \<not> isLineTerminator c) s")
  case Nil
  show ?thesis
    by (subst extractToc.simps) (simp add: exec_skip Nil)
next
  case (Cons t r)
  have "extractToc lc False s = (case headingsRegex_exec True r of
        None \<Rightarrow> []
      | Some (g1, g2, rest) \<Rightarrow>
          (let headingLevel = length g1;
               headingText = trim g2;
               slug = sluggify lc headingText
           in \<lparr>level = headingLevel, text' = headingText, href = js ''#'' @ slug\<rparr>
                # extractToc lc False rest))"
    by (subst extractToc.simps) (simp add: exec_skip Cons)
  also have "\<dots> = extractToc lc True r"
    by (subst (2) extractToc.simps) simp
  finally show ?thesis by (simp add: Cons)
qed

lemma at_rest:
  "headingsRegex_at s = Some (g1, g2, rest) \<Longrightarrow> dropWhile (\<lambda>c. \<not> isLineTerminator c) rest = rest"
  by (auto simp: headingsRegex_at_def Let_def split: if_splits list.splits)

lemma extractToc_bol:
  "extractToc lc True s =
     (case headingsRegex_at s of
        Some (g1, g2, rest) \<Rightarrow>
          mkEntry lc g1 g2 # (case rest of [] \<Rightarrow> [] | t # r \<Rightarrow> extractToc lc True r)
      | None \<Rightarrow> (case dropWhile (\<lambda>c. \<not> isLineTerminator c) s of [] \<Rightarrow> [] | t # r \<Rightarrow> extractToc lc True r))"
proof (cases "headingsRegex_at s")
  case None
  show ?thesis
  proof (cases "dropWhile (\<lambda>c. \<not> isLineTerminator c) s")
    case Nil
    show ?thesis
      by (subst extractToc.simps) (simp add: exec_bol None Nil)
  next
    case (Cons t r)
    have "extractToc lc True s = (case headingsRegex_exec True r of
        None \<Rightarrow> []
      | Some (g1, g2, rest) \<Rightarrow>
          (let headingLevel = length g1;
               headingText = trim g2;
               slug = sluggify lc headingText
           in \<lparr>level = headingLevel, text' = headingText, href = js ''#'' @ slug\<rparr>
                # extractToc lc False rest))"
      by (subst extractToc.simps) (simp add: exec_bol None Cons)
    also have "\<dots> = extractToc lc True r"
      by (subst (2) extractToc.simps) simp
    finally show ?thesis by (simp add: None Cons)
  qed
next
  case (Some m)
  obtain g1 g2 rest where m: "m = (g1, g2, rest)" by (cases m) auto
  have "dropWhile (\<lambda>c. \<not> isLineTerminator c) rest = rest" using Some m at_rest by blast
  then have "extractToc lc False rest = (case rest of [] \<Rightarrow> [] | t # r \<Rightarrow> extractToc lc True r)"
    using extractToc_skip[of lc rest] by simp
  then show ?thesis
    using Some m by (subst extractToc.simps) (simp add: exec_bol mkEntry_def Let_def)
qed

lemma tocOfLines_step:
  "tocOfLines lc s =
     (case lineEntry lc (takeWhile (\<lambda>c. \<not> isLineTerminator c) s) of None \<Rightarrow> [] | Some e \<Rightarrow> [e])
       @ (case dropWhile (\<lambda>c. \<not> isLineTerminator c) s of [] \<Rightarrow> [] | t # r \<Rightarrow> tocOfLines lc r)"
proof -
  have u: "splitLines s = takeWhile (\<lambda>c. \<not> isLineTerminator c) s #
      (case dropWhile (\<lambda>c. \<not> isLineTerminator c) s of [] \<Rightarrow> [] | t # r \<Rightarrow> splitLines r)"
    unfolding splitLines_def by (rule splitWhere_unfold)
  show ?thesis
  proof (cases "dropWhile (\<lambda>c. \<not> isLineTerminator c) s")
    case Nil
    have "splitLines s = [takeWhile (\<lambda>c. \<not> isLineTerminator c) s]"
      by (subst u) (simp add: Nil)
    then show ?thesis
      by (cases "lineEntry lc (takeWhile (\<lambda>c. \<not> isLineTerminator c) s)")
         (simp_all add: tocOfLines_def List.map_filter_simps Nil)
  next
    case (Cons t r)
    have "splitLines s = takeWhile (\<lambda>c. \<not> isLineTerminator c) s # splitLines r"
      by (subst u) (simp add: Cons)
    then show ?thesis
      by (cases "lineEntry lc (takeWhile (\<lambda>c. \<not> isLineTerminator c) s)")
         (simp_all add: tocOfLines_def List.map_filter_simps Cons)
  qed
qed

lemma at_none:
  assumes "headingsRegex_at s = None"
  shows "lineEntry lc (takeWhile (\<lambda>c. \<not> isLineTerminator c) s) = None"
proof -
  have tw: "takeWhile (\<lambda>c. c = 35) (takeWhile (\<lambda>c. \<not> isLineTerminator c) s) = takeWhile (\<lambda>c. c = 35) s"
    by (rule takeWhile_takeWhile) (simp add: isLineTerminator_def)
  have dw: "dropWhile (\<lambda>c. c = 35) (takeWhile (\<lambda>c. \<not> isLineTerminator c) s) = takeWhile (\<lambda>c. \<not> isLineTerminator c) (dropWhile (\<lambda>c. c = 35) s)"
    by (rule dropWhile_takeWhile) (simp add: isLineTerminator_def)
  show ?thesis
  proof (cases "dropWhile (\<lambda>c. c = 35) s")
    case Nil
    show ?thesis by (simp add: lineEntry_def Let_def tw dw Nil)
  next
    case (Cons w r2)
    show ?thesis
      using assms
      by (simp add: lineEntry_def headingsRegex_at_def Let_def tw dw Cons split: if_splits)
  qed
qed

lemma at_some:
  assumes "headingsRegex_at s = Some (g1, g2, rest)"
  shows "(lineEntry lc (takeWhile (\<lambda>c. \<not> isLineTerminator c) s) = Some (mkEntry lc g1 g2) \<and> rest = dropWhile (\<lambda>c. \<not> isLineTerminator c) s)
    \<or> (isBareMarker (takeWhile (\<lambda>c. \<not> isLineTerminator c) s) \<and>
        (\<exists>t r. dropWhile (\<lambda>c. \<not> isLineTerminator c) s = t # r \<and> takeWhile (\<lambda>c. \<not> isLineTerminator c) r \<noteq> []))"
proof -
  have tw: "takeWhile (\<lambda>c. c = 35) (takeWhile (\<lambda>c. \<not> isLineTerminator c) s) = takeWhile (\<lambda>c. c = 35) s"
    by (rule takeWhile_takeWhile) (simp add: isLineTerminator_def)
  have dw: "dropWhile (\<lambda>c. c = 35) (takeWhile (\<lambda>c. \<not> isLineTerminator c) s) = takeWhile (\<lambda>c. \<not> isLineTerminator c) (dropWhile (\<lambda>c. c = 35) s)"
    by (rule dropWhile_takeWhile) (simp add: isLineTerminator_def)
  have dd: "dropWhile (\<lambda>c. \<not> isLineTerminator c) (dropWhile (\<lambda>c. c = 35) s) = dropWhile (\<lambda>c. \<not> isLineTerminator c) s"
    by (rule dropWhile_dropWhile) (simp add: isLineTerminator_def)
  from assms obtain w r2 where r1: "dropWhile (\<lambda>c. c = 35) s = w # r2"
    and g1: "g1 = takeWhile (\<lambda>c. c = 35) s" and len: "2 \<le> length g1" "length g1 \<le> 4"
    and w: "isWhiteSpace w"
    and g2: "g2 = takeWhile (\<lambda>c. \<not> isLineTerminator c) r2" "g2 \<noteq> []"
    and rest: "rest = dropWhile (\<lambda>c. \<not> isLineTerminator c) r2"
    by (auto simp: headingsRegex_at_def Let_def split: if_splits list.splits)
  show ?thesis
  proof (cases "isLineTerminator w")
    case False
    have "lineEntry lc (takeWhile (\<lambda>c. \<not> isLineTerminator c) s) = Some (mkEntry lc g1 g2)"
      using g1 len w g2 False
      by (simp add: lineEntry_def Let_def tw dw r1 mkEntry_def)
    moreover have "rest = dropWhile (\<lambda>c. \<not> isLineTerminator c) s"
      using dd rest False by (simp add: r1)
    ultimately show ?thesis by simp
  next
    case True
    have s: "s = g1 @ w # r2"
      using r1 g1 takeWhile_dropWhile_id[of "\<lambda>c. c = 35" s] by simp
    have allN: "\<And>c. c \<in> set g1 \<Longrightarrow> \<not> isLineTerminator c"
      using g1 by (auto dest!: set_takeWhileD simp: isLineTerminator_def)
    have line: "takeWhile (\<lambda>c. \<not> isLineTerminator c) s = g1"
      by (subst s) (simp add: takeWhile_append2 allN True)
    have after: "dropWhile (\<lambda>c. \<not> isLineTerminator c) s = w # r2"
      by (subst s) (simp add: dropWhile_append2 allN True)
    have "list_all (\<lambda>c. c = 35) g1"
      using g1 by (auto simp: list_all_iff dest: set_takeWhileD)
    then have "isBareMarker (takeWhile (\<lambda>c. \<not> isLineTerminator c) s)"
      using len by (simp add: isBareMarker_def line)
    then show ?thesis using after g2 by simp
  qed
qed

lemma noBareMarker_tail: "noBareMarker (l # ls) \<Longrightarrow> noBareMarker ls"
  by (cases ls) simp_all

lemma splitLines_unfold:
  "splitLines s = takeWhile (\<lambda>c. \<not> isLineTerminator c) s #
      (case dropWhile (\<lambda>c. \<not> isLineTerminator c) s of [] \<Rightarrow> [] | t # r \<Rightarrow> splitLines r)"
  unfolding splitLines_def by (rule splitWhere_unfold)

text \<open>
  Apart from that, the loop and the line-by-line reading agree: on every text in which
  no line of two to four \<open>#\<close> alone is directly followed by a line that is not empty,
  the loop gives one entry for every line that has two to four \<open>#\<close>, one white space and
  a remaining content, in the order of the lines, with the level and the trimmed text
  of that line, and nothing for any other line.
\<close>

lemma extractToc_lines:
  "noBareMarker (splitLines s) \<Longrightarrow> extractToc lc True s = tocOfLines lc s"
proof (induction s rule: length_induct)
  case (1 s)
  note IH = 1(1) and nb = 1(2)
  have next_ok: "extractToc lc True r = tocOfLines lc r" if "dropWhile (\<lambda>c. \<not> isLineTerminator c) s = t # r" for t r
  proof -
    have "length (dropWhile (\<lambda>c. \<not> isLineTerminator c) s) \<le> length s" by (rule length_dropWhile_le)
    then have shorter: "length r < length s" using that by simp
    have "splitLines s = takeWhile (\<lambda>c. \<not> isLineTerminator c) s # splitLines r"
      by (subst splitLines_unfold) (simp add: that)
    then have "noBareMarker (splitLines r)"
      using nb noBareMarker_tail by metis
    then show ?thesis using IH shorter by blast
  qed
  have tails: "(case dropWhile (\<lambda>c. \<not> isLineTerminator c) s of [] \<Rightarrow> [] | t # r \<Rightarrow> extractToc lc True r)
      = (case dropWhile (\<lambda>c. \<not> isLineTerminator c) s of [] \<Rightarrow> [] | t # r \<Rightarrow> tocOfLines lc r)"
  proof (cases "dropWhile (\<lambda>c. \<not> isLineTerminator c) s")
    case Nil
    show ?thesis by (simp add: Nil)
  next
    case (Cons t r)
    show ?thesis using next_ok[OF Cons] by (simp add: Cons)
  qed
  show ?case
  proof (cases "headingsRegex_at s")
    case None
    have "extractToc lc True s = (case dropWhile (\<lambda>c. \<not> isLineTerminator c) s of [] \<Rightarrow> [] | t # r \<Rightarrow> extractToc lc True r)"
      by (subst extractToc_bol) (simp add: None)
    moreover have "tocOfLines lc s = (case dropWhile (\<lambda>c. \<not> isLineTerminator c) s of [] \<Rightarrow> [] | t # r \<Rightarrow> tocOfLines lc r)"
      by (subst tocOfLines_step) (simp add: at_none[OF None])
    ultimately show ?thesis using tails by simp
  next
    case (Some m)
    obtain g1 g2 rest where m: "m = (g1, g2, rest)" by (cases m) auto
    have at: "headingsRegex_at s = Some (g1, g2, rest)" using Some m by simp
    have "\<not> (isBareMarker (takeWhile (\<lambda>c. \<not> isLineTerminator c) s) \<and>
        (\<exists>t r. dropWhile (\<lambda>c. \<not> isLineTerminator c) s = t # r \<and> takeWhile (\<lambda>c. \<not> isLineTerminator c) r \<noteq> []))"
    proof
      assume "isBareMarker (takeWhile (\<lambda>c. \<not> isLineTerminator c) s) \<and>
        (\<exists>t r. dropWhile (\<lambda>c. \<not> isLineTerminator c) s = t # r \<and> takeWhile (\<lambda>c. \<not> isLineTerminator c) r \<noteq> [])"
      then obtain t r where b: "isBareMarker (takeWhile (\<lambda>c. \<not> isLineTerminator c) s)"
        and d: "dropWhile (\<lambda>c. \<not> isLineTerminator c) s = t # r" and ne: "takeWhile (\<lambda>c. \<not> isLineTerminator c) r \<noteq> []" by blast
      have "splitLines s = takeWhile (\<lambda>c. \<not> isLineTerminator c) s # splitLines r"
        by (subst splitLines_unfold) (simp add: d)
      moreover have "splitLines r = takeWhile (\<lambda>c. \<not> isLineTerminator c) r #
          (case dropWhile (\<lambda>c. \<not> isLineTerminator c) r of [] \<Rightarrow> [] | t # r' \<Rightarrow> splitLines r')"
        by (rule splitLines_unfold)
      ultimately have "\<not> noBareMarker (splitLines s)"
        using b ne by simp
      then show False using nb by simp
    qed
    then have loc: "lineEntry lc (takeWhile (\<lambda>c. \<not> isLineTerminator c) s) = Some (mkEntry lc g1 g2)"
      and rest: "rest = dropWhile (\<lambda>c. \<not> isLineTerminator c) s"
      using at_some[OF at, of lc] by blast+
    have "extractToc lc True s
        = mkEntry lc g1 g2 # (case dropWhile (\<lambda>c. \<not> isLineTerminator c) s of [] \<Rightarrow> [] | t # r \<Rightarrow> extractToc lc True r)"
      by (subst extractToc_bol) (simp add: at rest)
    moreover have "tocOfLines lc s
        = mkEntry lc g1 g2 # (case dropWhile (\<lambda>c. \<not> isLineTerminator c) s of [] \<Rightarrow> [] | t # r \<Rightarrow> tocOfLines lc r)"
      by (subst tocOfLines_step) (simp add: loc)
    ultimately show ?thesis using tails by simp
  qed
qed

text \<open>
  C6 fails on the code where a line is nothing but two to four \<open>#\<close>: the class \<open>\s\<close>
  holds the line terminators, so the pattern matches across the end of that line and
  takes the whole next line as the heading text. For the two lines \<open>##\<close> and \<open>## foo\<close>
  the loop gives one entry with the text \<open>## foo\<close> and the link \<open>#-foo\<close>; read line by
  line, the first line is no heading line and the second gives the text \<open>foo\<close> and the
  link \<open>#foo\<close>. For the two lines \<open>##\<close> and \<open>foo\<close> the loop gives an entry for \<open>foo\<close>,
  though neither line is a heading line.
\<close>

theorem extractToc_bare_marker_line:
  "extractToc asciiOnly True (js ''##'' @ [10] @ js ''## foo'')
     = [\<lparr>level = 2, text' = js ''## foo'', href = js ''#-foo''\<rparr>]
   \<and> tocOfLines asciiOnly (js ''##'' @ [10] @ js ''## foo'')
     = [\<lparr>level = 2, text' = js ''foo'', href = js ''#foo''\<rparr>]
   \<and> extractToc asciiOnly True (js ''##'' @ [10] @ js ''foo'')
     = [\<lparr>level = 2, text' = js ''foo'', href = js ''#foo''\<rparr>]
   \<and> tocOfLines asciiOnly (js ''##'' @ [10] @ js ''foo'') = []"
  by (simp add: extractToc.simps headingsRegex_at_def tocOfLines_def splitLines_def
      lineEntry_def List.map_filter_simps trim_def sluggify_def toLowerCase_def Let_def
      char_defs)

end
